theory Spec2Isabelle
  imports Main "HOL-Library.Word" "HOL-Library.Finite_Map" "HOL-Library.Sublist"
begin

section \<open>Go strings and the helpers of package strings\<close>

text \<open>
  A Go string is a sequence of bytes, here a \<^typ>\<open>string\<close>. \<open>strings.TrimSpace\<close> removes
  the leading and the trailing white-space runes as \<open>unicode.IsSpace\<close> defines them; the
  list below gives the UTF-8 encoding of each of them: the six ASCII ones, U+0085, U+00A0,
  U+1680, U+2000 to U+200A, U+2028, U+2029, U+202F, U+205F and U+3000.
\<close>

definition spaceRunes :: "string list" where
  "spaceRunes =
    [[CHR 0x09], [CHR 0x0A], [CHR 0x0B], [CHR 0x0C], [CHR 0x0D], [CHR 0x20],
     [CHR 0xC2, CHR 0x85], [CHR 0xC2, CHR 0xA0],
     [CHR 0xE1, CHR 0x9A, CHR 0x80],
     [CHR 0xE2, CHR 0x80, CHR 0x80], [CHR 0xE2, CHR 0x80, CHR 0x81],
     [CHR 0xE2, CHR 0x80, CHR 0x82], [CHR 0xE2, CHR 0x80, CHR 0x83],
     [CHR 0xE2, CHR 0x80, CHR 0x84], [CHR 0xE2, CHR 0x80, CHR 0x85],
     [CHR 0xE2, CHR 0x80, CHR 0x86], [CHR 0xE2, CHR 0x80, CHR 0x87],
     [CHR 0xE2, CHR 0x80, CHR 0x88], [CHR 0xE2, CHR 0x80, CHR 0x89],
     [CHR 0xE2, CHR 0x80, CHR 0x8A],
     [CHR 0xE2, CHR 0x80, CHR 0xA8], [CHR 0xE2, CHR 0x80, CHR 0xA9],
     [CHR 0xE2, CHR 0x80, CHR 0xAF],
     [CHR 0xE2, CHR 0x81, CHR 0x9F],
     [CHR 0xE3, CHR 0x80, CHR 0x80]]"

text \<open>Removing, as long as there is one, a leading occurrence of one of the words \<open>ws\<close>.\<close>

function stripLeading :: "string list \<Rightarrow> string \<Rightarrow> string" where
  "stripLeading ws s =
     (case List.find (\<lambda>w. w \<noteq> [] \<and> take (length w) s = w) ws of
        None \<Rightarrow> s
      | Some w \<Rightarrow> stripLeading ws (drop (length w) s))"
  by pat_completeness auto
termination
proof (relation "measure (\<lambda>(ws, s). length s)")
  show "wf (measure (\<lambda>(ws, s). length s))" by simp
next
  fix ws :: "string list" and s w :: string
  assume "List.find (\<lambda>w. w \<noteq> [] \<and> take (length w) s = w) ws = Some w"
  then have w: "w \<noteq> []" "take (length w) s = w"
    by (auto simp: find_Some_iff)
  from w(2) have "length (take (length w) s) = length w"
    by simp
  then have "length w \<le> length s"
    by simp
  with w(1) show "((ws, drop (length w) s), (ws, s)) \<in> measure (\<lambda>(ws, s). length s)"
    by (cases w) auto
qed

declare stripLeading.simps [simp del]

definition TrimSpace :: "string \<Rightarrow> string" where
  "TrimSpace s = rev (stripLeading (map rev spaceRunes) (rev (stripLeading spaceRunes s)))"

text \<open>\<open>strings.TrimRight(s, "/")\<close>: every trailing byte of the cutset is removed.\<close>

definition TrimRightSlash :: "string \<Rightarrow> string" where
  "TrimRightSlash s = rev (dropWhile (\<lambda>c. c = CHR ''/'') (rev s))"

section \<open>Cache keys (cache.go)\<close>

definition createTransactionKey :: "string \<Rightarrow> string \<Rightarrow> string" where
  "createTransactionKey transactionID subscriberURL =
     (let transactionID = TrimSpace transactionID;
          subscriberURL = TrimSpace subscriberURL;
          subscriberURL = TrimRightSlash subscriberURL
      in if transactionID = [] \<or> subscriberURL = [] then []
         else transactionID @ ''::'' @ subscriberURL)"

definition createFlowStatusCacheKey :: "string \<Rightarrow> string \<Rightarrow> string" where
  "createFlowStatusCacheKey transactionID subscriberURL =
     (let transactionID = TrimSpace transactionID;
          subscriberURL = TrimSpace subscriberURL
      in if transactionID = [] \<or> subscriberURL = [] then []
         else ''FLOW_STATUS_'' @ transactionID @ ''::'' @ subscriberURL)"


section \<open>Dynamic values and the key-value store\<close>

text \<open>
  The values a \<open>map[string]any\<close> holds: what \<open>encoding/json\<close> decodes to (nil, bool,
  float64, string, \<open>[]any\<close>, \<open>map[string]any\<close>) and the Go values the code itself puts or
  accepts (int64, int, \<open>[]string\<close>). A decoded float64 is finite, so it is given by the
  rational it denotes.
\<close>

datatype any =
    ANil
  | ABool bool
  | AFloat64 rat
  | AInt64 "64 word"
  | AInt "64 word"
  | AString string
  | ASlice "any list"
  | AStrings "string list"
  | AMap "(string, any) fmap"

type_synonym obj = "(string, any) fmap"

text \<open>
  A Redis value is a text. It is represented by the JSON value it denotes, or as \<open>NotJSON\<close>
  when it is no JSON text at all; \<open>json.Marshal\<close> of a document is the \<open>JSONText\<close> of it
  (it cannot fail on these values). An int64 that the code puts into a document stays
  one here; read back from the text it would be the float64 of the same number. A key has
  no expiry or a remaining time to live, a positive \<open>time.Duration\<close> in nanoseconds; no
  time passes between the commands of one call.
\<close>

datatype stored = NotJSON string | JSONText any

datatype expiry = NoExpiry | ExpiresIn int

record entry =
  content :: stored
  remaining :: expiry

type_synonym redis = "string \<rightharpoonup> entry"

datatype err =
    errNotFound
  | errAborted
  | TxFailedErr
  | ioError
  | jsonError
  | errInvalidKey
  | errNotConfigured

text \<open>\<open>json.Unmarshal\<close> into a \<open>map[string]any\<close>: \<open>null\<close> leaves the map nil.\<close>

fun unmarshalMap :: "stored \<Rightarrow> err + obj option" where
  "unmarshalMap (NotJSON _) = Inl jsonError"
| "unmarshalMap (JSONText ANil) = Inr None"
| "unmarshalMap (JSONText (AMap m)) = Inr (Some m)"
| "unmarshalMap (JSONText _) = Inl jsonError"

text \<open>
  A nil map reads like the empty one, and the code replaces a nil document by the empty
  one before it writes to it.
\<close>

definition entries :: "obj option \<Rightarrow> obj" where
  "entries m = (case m of None \<Rightarrow> fmempty | Some t \<Rightarrow> t)"

text \<open>
  \<open>Set(key, value, expiration)\<close> of go-redis: a positive expiration is the new time to live,
  \<open>KeepTTL\<close> (-1) keeps the present one, anything else leaves the key without expiry.
  The store keeps the duration as given; the rounding of the client to whole
  milliseconds or seconds is left out.
\<close>

definition KeepTTL :: int where
  "KeepTTL = -1"

definition redisSet :: "redis \<Rightarrow> string \<Rightarrow> stored \<Rightarrow> int \<Rightarrow> redis" where
  "redisSet rdb key v expiration =
     rdb(key \<mapsto> \<lparr>content = v,
                  remaining = (if expiration > 0 then ExpiresIn expiration
                         else if expiration = KeepTTL
                           then (case rdb key of None \<Rightarrow> NoExpiry | Some e \<Rightarrow> remaining e)
                         else NoExpiry)\<rparr>)"

text \<open>
  \<open>TTL(key)\<close>: the server answers in whole seconds, rounded; -1 for a key without expiry,
  -2 for no key.
\<close>

definition redisTTL :: "redis \<Rightarrow> string \<Rightarrow> int" where
  "redisTTL rdb key =
     (case rdb key of
        None \<Rightarrow> -2
      | Some e \<Rightarrow>
          (case remaining e of
             NoExpiry \<Rightarrow> -1
           | ExpiresIn d \<Rightarrow> ((d div 1000000 + 500) div 1000) * 1000000000))"

text \<open>
  What the outside world does during one optimistic cycle (\<open>rdb.Watch\<close>): each command
  can fail on the connection, and another client can rewrite or delete the watched key
  between the read and \<open>EXEC\<close> (\<open>touched = Some w\<close> leaves the key as \<open>w\<close>), which makes
  \<open>EXEC\<close> fail with \<open>TxFailedErr\<close>. \<open>clock\<close> is what \<open>time.Now()\<close> formats to.
\<close>

record env =
  watchErr :: bool
  getErr :: bool
  ttlErr :: bool
  touched :: "entry option option"
  execErr :: bool
  clock :: string

definition txExec :: "redis \<Rightarrow> env \<Rightarrow> string \<Rightarrow> stored \<Rightarrow> int \<Rightarrow> redis \<times> err option" where
  "txExec rdb e key v expiration =
     (case touched e of
        Some w \<Rightarrow> (rdb(key := w), Some (if execErr e then ioError else TxFailedErr))
      | None \<Rightarrow>
          if execErr e then (rdb, Some ioError)
          else (redisSet rdb key v expiration, None))"

section \<open>The audit append (cache.go)\<close>

record cacheAppendInput =
  PayloadID :: string
  TransactionID :: string
  MessageID :: string
  SubscriberURL :: string
  Action :: string
  Timestamp :: string
  TTLSecs :: "64 word"
  Response :: any

definition maxAttempts :: nat where
  "maxAttempts = 8"

text \<open>The type switch on \<open>txn["messageIds"]\<close>.\<close>

fun messageIdsOf :: "any option \<Rightarrow> string list" where
  "messageIdsOf (Some (ASlice v)) =
     List.map_filter (\<lambda>it. case it of AString s \<Rightarrow> Some s | _ \<Rightarrow> None) v"
| "messageIdsOf (Some (AStrings v)) = v"
| "messageIdsOf _ = []"

text \<open>\<open>txn["apiList"].([]any)\<close>, replaced by the empty slice when the assertion fails.\<close>

fun apiListOf :: "any option \<Rightarrow> any list" where
  "apiListOf (Some (ASlice l)) = l"
| "apiListOf _ = []"

definition apiEntry :: "cacheAppendInput \<Rightarrow> string \<Rightarrow> obj" where
  "apiEntry inp now =
     (let entry = fmap_of_list
            [(''entryType'', AString ''API''),
             (''action'', AString (TrimSpace (Action inp))),
             (''payloadId'', AString (TrimSpace (PayloadID inp))),
             (''messageId'', AString (TrimSpace (MessageID inp))),
             (''response'', Response inp),
             (''timestamp'', AString (TrimSpace (Timestamp inp))),
             (''realTimestamp'', AString now)]
      in if sint (TTLSecs inp) > 0 then fmupd ''ttl'' (AInt64 (TTLSecs inp)) entry
         else entry)"

text \<open>The body of the closure between decoding and encoding the document.\<close>

definition auditAppend :: "cacheAppendInput \<Rightarrow> string \<Rightarrow> obj \<Rightarrow> obj" where
  "auditAppend inp now txn0 =
     (let txn = fmupd ''latestAction'' (AString (TrimSpace (Action inp))) txn0;
          txn = fmupd ''latestTimestamp'' (AString (TrimSpace (Timestamp inp))) txn;
          messageID = TrimSpace (MessageID inp);
          txn = (if messageID \<noteq> [] then
                   let msgIDs = messageIdsOf (fmlookup txn ''messageIds'');
                       seen = (messageID \<in> set msgIDs);
                       msgIDs = (if \<not> seen then msgIDs @ [messageID] else msgIDs)
                   in fmupd ''messageIds'' (ASlice (map AString msgIDs)) txn
                 else txn);
          apiList = apiListOf (fmlookup txn ''apiList'');
          apiList = apiList @ [AMap (apiEntry inp now)]
      in fmupd ''apiList'' (ASlice apiList) txn)"

text \<open>
  One cycle: the function passed to \<open>rdb.Watch\<close>, with the \<open>WATCH\<close> before it. The
  client is taken to be connected (the function does not check it for nil).
\<close>

definition auditCycle ::
  "redis \<Rightarrow> env \<Rightarrow> string \<Rightarrow> cacheAppendInput \<Rightarrow> int \<Rightarrow> redis \<times> err option" where
  "auditCycle rdb e key inp cacheTTL =
     (if watchErr e then (rdb, Some ioError)
      else if getErr e then (rdb, Some ioError)
      else case rdb key of
        None \<Rightarrow> (rdb, Some errNotFound)
      | Some ent \<Rightarrow>
          (case unmarshalMap (content ent) of
             Inl er \<Rightarrow> (rdb, Some er)
           | Inr m \<Rightarrow>
               let txn = entries m;
                   updated = JSONText (AMap (auditAppend inp (clock e) txn))
               in if cacheTTL > 0 then txExec rdb e key updated cacheTTL
                  else txExec rdb e key updated 0))"

text \<open>
  The retry loop that both writers run around their cycle, from attempt number
  \<open>attempt\<close> on: success and \<open>errNotFound\<close> return, \<open>TxFailedErr\<close> continues, any other
  error returns, and \<open>errAborted\<close> is what is left when the attempts are used up.
  Besides the store and the error it returns the outcome of every cycle it ran, in order.
\<close>

function watchLoop ::
  "nat \<Rightarrow> (nat \<Rightarrow> redis \<Rightarrow> redis \<times> err option) \<Rightarrow> redis
     \<Rightarrow> redis \<times> err option \<times> err option list" where
  "watchLoop attempt cycle rdb =
     (if attempt < maxAttempts then
        (case cycle attempt rdb of
           (rdb', None) \<Rightarrow> (rdb', None, [None])
         | (rdb', Some er) \<Rightarrow>
             if er = errNotFound then (rdb', Some er, [Some er])
             else if er = TxFailedErr then
               (case watchLoop (Suc attempt) cycle rdb' of
                  (rdb'', res, tr) \<Rightarrow> (rdb'', res, Some er # tr))
             else (rdb', Some er, [Some er]))
      else (rdb, Some errAborted, []))"
  by pat_completeness auto
termination
  by (relation "measure (\<lambda>(attempt, cycle, rdb). maxAttempts - attempt)") auto

declare watchLoop.simps [simp del]

definition updateTransactionAtomically ::
  "(nat \<Rightarrow> env) \<Rightarrow> redis \<Rightarrow> string \<Rightarrow> cacheAppendInput \<Rightarrow> int
     \<Rightarrow> redis \<times> err option \<times> err option list" where
  "updateTransactionAtomically envs rdb key inp cacheTTL =
     watchLoop 0 (\<lambda>attempt rdb. auditCycle rdb (envs attempt) key inp cacheTTL) rdb"

section \<open>The flow status (cache.go)\<close>

text \<open>
  \<open>setFlowStatusIfExists\<close> issues \<open>EXISTS\<close> and then \<open>SET\<close>, with no transaction around them:
  \<open>raced = Some w\<close> says that another client left the key as \<open>w\<close> in between. A nil client
  is \<open>None\<close>.
\<close>

record statusEnv =
  existsErr :: bool
  raced :: "entry option option"
  setErr :: bool

definition setFlowStatusIfExists ::
  "redis option \<Rightarrow> statusEnv \<Rightarrow> string \<Rightarrow> string \<Rightarrow> string \<Rightarrow> int \<Rightarrow> redis option \<times> err option" where
  "setFlowStatusIfExists client e transactionID subscriberURL statusValue ttl =
     (case client of
        None \<Rightarrow> (None, None)
      | Some rdb \<Rightarrow>
          let key = createFlowStatusCacheKey transactionID subscriberURL
          in if key = [] then (Some rdb, None)
             else if existsErr e then (Some rdb, Some ioError)
             else if rdb key = None then (Some rdb, None)
             else
               let rdb = (case raced e of None \<Rightarrow> rdb | Some w \<Rightarrow> rdb(key := w));
                   b = JSONText (AMap (fmap_of_list [(''status'', AString statusValue)]))
               in if setErr e then (Some rdb, Some ioError)
                  else (Some (redisSet rdb key b ttl), None))"

section \<open>The form append (http\_form.go)\<close>

definition formEntry :: "string \<Rightarrow> string \<Rightarrow> string \<Rightarrow> any \<Rightarrow> string \<Rightarrow> obj" where
  "formEntry formID formType submissionID errVal now =
     (let entry = fmap_of_list
            [(''entryType'', AString ''FORM''),
             (''formId'', AString (TrimSpace formID)),
             (''timestamp'', AString now),
             (''formType'', AString (TrimSpace formType))];
          entry = (if TrimSpace submissionID \<noteq> []
                   then fmupd ''submissionId'' (AString (TrimSpace submissionID)) entry
                   else entry)
      in if errVal \<noteq> ANil then fmupd ''error'' errVal entry else entry)"

definition formAppend :: "string \<Rightarrow> string \<Rightarrow> string \<Rightarrow> any \<Rightarrow> string \<Rightarrow> obj \<Rightarrow> obj" where
  "formAppend formID formType submissionID errVal now txn =
     (let apiList = apiListOf (fmlookup txn ''apiList'');
          apiList = apiList @ [AMap (formEntry formID formType submissionID errVal now)]
      in fmupd ''apiList'' (ASlice apiList) txn)"

definition formCycle ::
  "redis \<Rightarrow> env \<Rightarrow> string \<Rightarrow> string \<Rightarrow> string \<Rightarrow> string \<Rightarrow> any \<Rightarrow> redis \<times> err option" where
  "formCycle rdb e key formID formType submissionID errVal =
     (if watchErr e then (rdb, Some ioError)
      else if getErr e then (rdb, Some ioError)
      else case rdb key of
        None \<Rightarrow> (rdb, Some errNotFound)
      | Some ent \<Rightarrow>
          let ttl = (if ttlErr e then 0 else redisTTL rdb key)
          in (case unmarshalMap (content ent) of
                Inl er \<Rightarrow> (rdb, Some er)
              | Inr m \<Rightarrow>
                  let txn = entries m;
                      updated = JSONText (AMap
                        (formAppend formID formType submissionID errVal (clock e) txn))
                  in if ttl > 0 then txExec rdb e key updated ttl
                     else txExec rdb e key updated 0))"

definition appendFormEntryAtomically ::
  "(nat \<Rightarrow> env) \<Rightarrow> redis option \<Rightarrow> string \<Rightarrow> string \<Rightarrow> string \<Rightarrow> string \<Rightarrow> string \<Rightarrow> any
     \<Rightarrow> redis option \<times> err option" where
  "appendFormEntryAtomically envs client transactionID subscriberURL formID formType
       submissionID errVal =
     (let key = createTransactionKey transactionID subscriberURL
      in if key = [] then (client, Some errInvalidKey)
         else case client of
           None \<Rightarrow> (None, Some errNotConfigured)
         | Some rdb \<Rightarrow>
             (case watchLoop 0 (\<lambda>attempt rdb. formCycle rdb (envs attempt) key formID formType
                                  submissionID errVal) rdb of
                (rdb', res, tr) \<Rightarrow> (Some rdb', res)))"

text \<open>
  The handler of \<open>/html-form\<close>. The body is what \<open>Decode\<close> makes of it: no JSON, or a JSON
  value (only an object fills the map; \<open>null\<close> leaves it nil). A comma-ok assertion
  \<open>.(string)\<close> gives the string and whether the value was one. The handler returns the
  client, the status code and the text it hands to \<open>http.Error\<close> or \<open>Write\<close>.
\<close>

datatype body = Undecodable | Decoded any

record httpRequest =
  Method :: string
  Body :: body

fun assertString :: "any option \<Rightarrow> string \<times> bool" where
  "assertString (Some (AString s)) = (s, True)"
| "assertString _ = ([], False)"

definition submissionIDOf :: "obj \<Rightarrow> string" where
  "submissionIDOf formData =
     (let submissionID = fst (assertString (fmlookup formData ''submissionId''))
      in if TrimSpace submissionID = []
         then fst (assertString (fmlookup formData ''submission_id''))
         else submissionID)"

definition htmlForm ::
  "(nat \<Rightarrow> env) \<Rightarrow> redis option \<Rightarrow> httpRequest \<Rightarrow> redis option \<times> nat \<times> string" where
  "htmlForm envs client r =
     (if Method r \<noteq> ''POST'' then (client, 405, [])
      else case Body r of
        Decoded (AMap formData) \<Rightarrow>
          (let (transactionID, ok1) = assertString (fmlookup formData ''transaction_id'');
               (subscriberURL, ok2) = assertString (fmlookup formData ''subscriber_url'');
               (formActionID, ok3) = assertString (fmlookup formData ''form_action_id'')
           in if \<not> ok1 \<or> \<not> ok2 \<or> \<not> ok3
              then (client, 400,
                    ''Missing required form fields: transaction_id, subscriber_url, or form_action_id''
                    @ [CHR 0x0A] @ ''                should be strings'')
              else
                let formType = fst (assertString (fmlookup formData ''form_type''));
                    submissionID = submissionIDOf formData;
                    errVal = (case fmlookup formData ''error'' of None \<Rightarrow> ANil | Some v \<Rightarrow> v)
                in (case appendFormEntryAtomically envs client transactionID subscriberURL
                           formActionID formType submissionID errVal of
                      (client', Some er) \<Rightarrow> (client', 500, ''Internal Server Error'')
                    | (client', None) \<Rightarrow> (client', 200, ''Form submitted successfully'')))
      | _ \<Rightarrow> (client, 400, ''Invalid form data''))"


section \<open>Reading fields (util.go)\<close>

definition getString :: "obj \<Rightarrow> string \<Rightarrow> string" where
  "getString m k = (case fmlookup m k of Some (AString s) \<Rightarrow> s | _ \<Rightarrow> [])"

text \<open>
  \<open>int64(n)\<close> of a float64 drops the fraction. Go leaves the result open when the value
  does not fit; the smallest int64 is what amd64 gives.
\<close>

definition float64ToInt64 :: "rat \<Rightarrow> 64 word" where
  "float64ToInt64 n =
     (let t = (if n < 0 then \<lceil>n\<rceil> else \<lfloor>n\<rfloor>)
      in if - (2 ^ 63) \<le> t \<and> t < 2 ^ 63 then word_of_int t else word_of_int (- (2 ^ 63)))"

text \<open>\<open>strconv.ParseInt(s, 10, 64)\<close>: an optional sign and decimal digits, within int64.\<close>

definition isDigit :: "char \<Rightarrow> bool" where
  "isDigit c \<longleftrightarrow> c \<in> set ''0123456789''"

definition digitsValue :: "string \<Rightarrow> int" where
  "digitsValue ds = foldl (\<lambda>acc c. 10 * acc + (of_char c - 48)) 0 ds"

definition ParseInt :: "string \<Rightarrow> 64 word option" where
  "ParseInt s =
     (let (neg, ds) = (case s of
                         [] \<Rightarrow> (False, [])
                       | c # r \<Rightarrow> if c = CHR ''+'' then (False, r)
                                  else if c = CHR ''-'' then (True, r)
                                  else (False, s))
      in if ds = [] \<or> \<not> list_all isDigit ds then None
         else
           let v = (if neg then - digitsValue ds else digitsValue ds)
           in if - (2 ^ 63) \<le> v \<and> v < 2 ^ 63 then Some (word_of_int v) else None)"

definition getInt64 :: "obj \<Rightarrow> string \<Rightarrow> 64 word" where
  "getInt64 m k =
     (case fmlookup m k of
        Some (AFloat64 n) \<Rightarrow> float64ToInt64 n
      | Some (AInt64 n) \<Rightarrow> n
      | Some (AInt n) \<Rightarrow> n
      | Some (AString n) \<Rightarrow> (case ParseInt (TrimSpace n) of Some parsed \<Rightarrow> parsed | None \<Rightarrow> 0)
      | _ \<Rightarrow> 0)"

definition getBool :: "obj \<Rightarrow> string \<Rightarrow> bool" where
  "getBool m k = (case fmlookup m k of Some (ABool b) \<Rightarrow> b | _ \<Rightarrow> False)"

section \<open>The audit service\<close>

record auditPayload =
  RequestBody :: "obj option"
  ResponseBody :: "obj option"
  AdditionalData :: "obj option"

record derivedFields =
  dPayloadID :: string
  dTransactionID :: string
  dMessageID :: string
  dSubscriberURL :: string
  dAction :: string
  dTimestamp :: string
  dAPIName :: string
  dStatusCode :: "64 word"
  dTTLSecs :: "64 word"
  dCacheTTLSecs :: "64 word"
  dIsMock :: bool
  dSessionID :: string

text \<open>The backfill of the message id from \<open>requestBody.context\<close>.\<close>

definition backfillMessageID :: "auditPayload \<Rightarrow> derivedFields \<Rightarrow> derivedFields" where
  "backfillMessageID p out =
     (case fmlookup (entries (RequestBody p)) ''context'' of
        Some (AMap ctxObj) \<Rightarrow>
          if TrimSpace (dMessageID out) = []
          then out\<lparr>dMessageID := getString ctxObj ''message_id''\<rparr>
          else out
      | _ \<Rightarrow> out)"

text \<open>\<open>now\<close> is \<open>time.Now().UTC().Format(time.RFC3339Nano)\<close>; the error is its message.\<close>

definition deriveFields :: "auditPayload \<Rightarrow> string \<Rightarrow> string + derivedFields" where
  "deriveFields p now =
     (let ad = entries (AdditionalData p);
          out = \<lparr>dPayloadID = getString ad ''payload_id'',
                 dTransactionID = getString ad ''transaction_id'',
                 dMessageID = getString ad ''message_id'',
                 dSubscriberURL = getString ad ''subscriber_url'',
                 dAction = getString ad ''action'',
                 dTimestamp = getString ad ''timestamp'',
                 dAPIName = getString ad ''api_name'',
                 dStatusCode = getInt64 ad ''status_code'',
                 dTTLSecs = getInt64 ad ''ttl_seconds'',
                 dCacheTTLSecs = getInt64 ad ''cache_ttl_seconds'',
                 dIsMock = getBool ad ''is_mock'',
                 dSessionID = getString ad ''session_id''\<rparr>;
          out = backfillMessageID p out
      in if TrimSpace (dTransactionID out) = []
           then Inl ''transaction_id is required in additionalData''
         else if TrimSpace (dSubscriberURL out) = []
           then Inl ''subscriber_url is required in additionalData''
         else
           let out = (if TrimSpace (dAction out) = []
                      then out\<lparr>dAction := ''unknown_action''\<rparr> else out);
               out = (if TrimSpace (dTimestamp out) = []
                      then out\<lparr>dTimestamp := now\<rparr> else out);
               out = (if TrimSpace (dAPIName out) = []
                      then out\<lparr>dAPIName := ''unknown_api''\<rparr> else out)
           in Inr out)"

record config =
  SkipCacheUpdate :: bool
  SkipNOPush :: bool
  SkipDBSave :: bool
  APITTLSecondsDefault :: "64 word"
  CacheTTLSecondsDefault :: "64 word"

datatype code = InvalidArgument | NotFound | Aborted | Internal

datatype status = Status code string

text \<open>
  The request: nil, or bytes. The bytes are no JSON, \<open>null\<close>, a JSON value that is no
  object, or an object, which is given by the values of the members that the decoder
  matches with the three fields of \<open>auditPayload\<close> (\<open>None\<close>: no such member).
\<close>

record members =
  requestBody :: "any option"
  responseBody :: "any option"
  additionalData :: "any option"

datatype bytes = Malformed | Null | Other | Object members

datatype request = NilRequest | BytesValue bytes

text \<open>Decoding one member into a field of type \<open>map[string]any\<close>.\<close>

fun unmarshalField :: "any option \<Rightarrow> err + obj option" where
  "unmarshalField None = Inr None"
| "unmarshalField (Some ANil) = Inr None"
| "unmarshalField (Some (AMap m)) = Inr (Some m)"
| "unmarshalField (Some _) = Inl jsonError"

definition unmarshalPayload :: "bytes \<Rightarrow> err + auditPayload" where
  "unmarshalPayload b =
     (case b of
        Malformed \<Rightarrow> Inl jsonError
      | Other \<Rightarrow> Inl jsonError
      | Null \<Rightarrow> Inr \<lparr>RequestBody = None, ResponseBody = None, AdditionalData = None\<rparr>
      | Object ms \<Rightarrow>
          (case (unmarshalField (requestBody ms), unmarshalField (responseBody ms),
                 unmarshalField (additionalData ms)) of
             (Inr rq, Inr rs, Inr ad) \<Rightarrow>
               Inr \<lparr>RequestBody = rq, ResponseBody = rs, AdditionalData = ad\<rparr>
           | _ \<Rightarrow> Inl jsonError))"

text \<open>
  \<open>LogEvent\<close> up to the cache update, in two steps. \<open>resolve\<close> is what follows the
  derivation of the fields: the payload id, the default TTLs of the configuration, the
  key and the cache TTL. \<open>uuid\<close> is what \<open>uuidV4\<close> returns.
  \<open>time.Duration(secs) * time.Second\<close> is a product of int64, which wraps.
\<close>

record prepared =
  pPayload :: auditPayload
  pDerived :: derivedFields
  pKey :: string
  pCacheTTL :: int

definition resolve :: "config \<Rightarrow> string \<Rightarrow> auditPayload \<Rightarrow> derivedFields \<Rightarrow> status + prepared" where
  "resolve cfg uuid p d =
     (let d = (if dPayloadID d = [] then d\<lparr>dPayloadID := uuid\<rparr> else d);
          d = (if dTTLSecs d = 0 then d\<lparr>dTTLSecs := APITTLSecondsDefault cfg\<rparr> else d);
          d = (if dCacheTTLSecs d = 0
               then d\<lparr>dCacheTTLSecs := CacheTTLSecondsDefault cfg\<rparr> else d);
          k = createTransactionKey (dTransactionID d) (dSubscriberURL d)
      in if k = [] then Inl (Status InvalidArgument ''invalid key'')
         else if sint (dCacheTTLSecs d) < 0
           then Inl (Status InvalidArgument ''cache_ttl_seconds must be >= 0'')
         else Inr \<lparr>pPayload = p, pDerived = d, pKey = k,
                   pCacheTTL = (if sint (dCacheTTLSecs d) > 0
                                then sint (dCacheTTLSecs d * 1000000000)
                                else 0)\<rparr>)"

definition prepare :: "config \<Rightarrow> string \<Rightarrow> string \<Rightarrow> request \<Rightarrow> status + prepared" where
  "prepare cfg now uuid req =
     (case req of
        NilRequest \<Rightarrow> Inl (Status InvalidArgument ''request is required'')
      | BytesValue b \<Rightarrow>
          (case unmarshalPayload b of
             Inl er \<Rightarrow> Inl (Status InvalidArgument ''invalid JSON'')
           | Inr p \<Rightarrow>
               if RequestBody p = None
                 then Inl (Status InvalidArgument ''requestBody must be a JSON object'')
               else if ResponseBody p = None
                 then Inl (Status InvalidArgument ''responseBody must be a JSON object'')
               else
                 let p = (if AdditionalData p = None then p\<lparr>AdditionalData := Some fmempty\<rparr>
                          else p)
                 in (case deriveFields p now of
                       Inl msg \<Rightarrow> Inl (Status InvalidArgument msg)
                     | Inr d \<Rightarrow> resolve cfg uuid p d)))"

text \<open>
  What one call meets: the clock of \<open>deriveFields\<close>, the random payload id, the cycles
  of the cache update and the flow-status commands.
\<close>

record callEnv =
  wallClock :: string
  randomID :: string
  cycles :: "nat \<Rightarrow> env"
  flow :: statusEnv

text \<open>
  The whole call on a connected client: the store afterwards, the status returned (or
  success) and the names of the jobs handed to the dispatcher, in order.
\<close>

definition LogEvent ::
  "config \<Rightarrow> callEnv \<Rightarrow> redis \<Rightarrow> request \<Rightarrow> redis \<times> (status + unit) \<times> string list" where
  "LogEvent cfg ce rdb req =
     (case prepare cfg (wallClock ce) (randomID ce) req of
        Inl st \<Rightarrow> (rdb, Inl st, [])
      | Inr q \<Rightarrow>
          let d = pDerived q;
              jobs = (if \<not> SkipNOPush cfg then [''no-push''] else [])
                   @ (if \<not> SkipDBSave cfg then [''db-save''] else [])
          in if \<not> SkipCacheUpdate cfg then
               let inp = \<lparr>PayloadID = dPayloadID d,
                          TransactionID = dTransactionID d,
                          MessageID = dMessageID d,
                          SubscriberURL = dSubscriberURL d,
                          Action = dAction d,
                          Timestamp = dTimestamp d,
                          TTLSecs = dTTLSecs d,
                          Response = AMap (entries (ResponseBody (pPayload q)))\<rparr>
               in (case updateTransactionAtomically (cycles ce) rdb (pKey q) inp (pCacheTTL q) of
                     (rdb', Some er, tr) \<Rightarrow>
                       if er = errNotFound
                         then (rdb', Inl (Status NotFound ''transaction not found''), [])
                       else if er = errAborted
                         then (rdb', Inl (Status Aborted ''conflict, retry''), [])
                       else (rdb', Inl (Status Internal ''cache update failed''), [])
                   | (rdb', None, tr) \<Rightarrow>
                       (case setFlowStatusIfExists (Some rdb') (flow ce) (dTransactionID d)
                               (dSubscriberURL d) ''AVAILABLE'' (5 * 3600000000000) of
                          (Some rdb'', w) \<Rightarrow> (rdb'', Inr (), jobs)
                        | (None, w) \<Rightarrow> (rdb', Inr (), jobs)))
             else (rdb, Inr (), jobs))"

section \<open>Reading a run\<close>

text \<open>
  What cycle number \<open>n\<close> of a writer finds under its key when every cycle before it ended
  in a conflict: the initial entry for the first cycle, and otherwise what the client
  that caused the last conflict left there.
\<close>

definition readBy :: "(nat \<Rightarrow> env) \<Rightarrow> redis \<Rightarrow> string \<Rightarrow> nat \<Rightarrow> entry option" where
  "readBy envs rdb key n =
     (case n of
        0 \<Rightarrow> rdb key
      | Suc i \<Rightarrow> (case touched (envs i) of None \<Rightarrow> rdb key | Some w \<Rightarrow> w))"

text \<open>
  The stores of a run, from the environment alone: attempt 0 starts from the initial
  store, and attempt \<open>i + 1\<close> from the store that the cycle of attempt \<open>i\<close> left.
  \<open>auditOutcome\<close> and \<open>formOutcome\<close> are the errors of the cycle of attempt \<open>i\<close> of the
  two writers on the store it starts from.
\<close>

fun storeOf :: "(nat \<Rightarrow> redis \<Rightarrow> redis \<times> err option) \<Rightarrow> redis \<Rightarrow> nat \<Rightarrow> redis" where
  "storeOf cycle rdb 0 = rdb"
| "storeOf cycle rdb (Suc i) = fst (cycle i (storeOf cycle rdb i))"

definition auditStore ::
  "(nat \<Rightarrow> env) \<Rightarrow> redis \<Rightarrow> string \<Rightarrow> cacheAppendInput \<Rightarrow> int \<Rightarrow> nat \<Rightarrow> redis" where
  "auditStore envs rdb key inp cacheTTL i =
     storeOf (\<lambda>attempt rdb. auditCycle rdb (envs attempt) key inp cacheTTL) rdb i"

definition auditOutcome ::
  "(nat \<Rightarrow> env) \<Rightarrow> redis \<Rightarrow> string \<Rightarrow> cacheAppendInput \<Rightarrow> int \<Rightarrow> nat \<Rightarrow> err option" where
  "auditOutcome envs rdb key inp cacheTTL i =
     snd (auditCycle (auditStore envs rdb key inp cacheTTL i) (envs i) key inp cacheTTL)"



text \<open>The document an entry holds, as the writers decode it, and its \<open>apiList\<close>.\<close>

definition documentIn :: "entry option \<Rightarrow> obj" where
  "documentIn e =
     (case e of
        None \<Rightarrow> fmempty
      | Some ent \<Rightarrow> (case unmarshalMap (content ent) of Inl er \<Rightarrow> fmempty | Inr m \<Rightarrow> entries m))"

definition apiListIn :: "entry option \<Rightarrow> any list" where
  "apiListIn e = apiListOf (fmlookup (documentIn e) ''apiList'')"


section \<open>Example values\<close>

text \<open>
  A seeded document with a time to live of one hour, the request of the repository's
  tests, an undisturbed environment and one in which another client rewrites the key
  during every cycle.
\<close>

definition seedKey :: string where
  "seedKey = ''t1::https://s''"

definition seedDoc :: obj where
  "seedDoc = fmap_of_list
     [(''latestAction'', AString ''init''), (''subscriberType'', AString ''BPP''),
      (''messageIds'', ASlice [AString ''m1'', AString ''m2'']), (''apiList'', ASlice [])]"

definition seeded :: redis where
  "seeded = [seedKey \<mapsto> \<lparr>content = JSONText (AMap seedDoc), remaining = ExpiresIn 3600000000000\<rparr>]"

definition onSearch :: cacheAppendInput where
  "onSearch = \<lparr>PayloadID = ''pid-1'', TransactionID = ''t1'', MessageID = ''m2'',
               SubscriberURL = ''https://s'', Action = ''on_search'',
               Timestamp = ''2026-01-07T00:00:00Z'', TTLSecs = 30,
               Response = AMap (fmap_of_list [(''ok'', ABool True)])\<rparr>"

definition calm :: "nat \<Rightarrow> env" where
  "calm n = \<lparr>watchErr = False, getErr = False, ttlErr = False, touched = None,
             execErr = False, clock = ''2026-01-07T00:00:01Z''\<rparr>"

definition contended :: "nat \<Rightarrow> env" where
  "contended n = \<lparr>watchErr = False, getErr = False, ttlErr = False,
                  touched = Some (Some \<lparr>content = JSONText (AMap seedDoc), remaining = NoExpiry\<rparr>),
                  execErr = False, clock = ''2026-01-07T00:00:01Z''\<rparr>"

section \<open>The key as the specification words it\<close>

text \<open>
  The specification of the document key: trim both inputs, strip exactly one trailing
  \<open>/\<close> from the URL, the empty key if either component is empty.
\<close>

definition stripOneSlash :: "string \<Rightarrow> string" where
  "stripOneSlash s = (if s \<noteq> [] \<and> last s = CHR ''/'' then butlast s else s)"

definition transactionKeySpec :: "string \<Rightarrow> string \<Rightarrow> string" where
  "transactionKeySpec i u =
     (let t = TrimSpace i; v = stripOneSlash (TrimSpace u)
      in if t = [] \<or> v = [] then [] else t @ ''::'' @ v)"

text \<open>
  An environment in which another client rewrites the key during the first cycle only,
  leaving a document with another \<open>flowId\<close> and one entry.
\<close>

definition otherDoc :: obj where
  "otherDoc = fmap_of_list
     [(''flowId'', AString ''B''), (''apiList'', ASlice [AString ''theirs''])]"

definition contendedOnce :: "nat \<Rightarrow> env" where
  "contendedOnce n =
     (if n = 0
      then \<lparr>watchErr = False, getErr = False, ttlErr = False,
            touched = Some (Some \<lparr>content = JSONText (AMap otherDoc), remaining = NoExpiry\<rparr>),
            execErr = False, clock = ''2026-01-07T00:00:01Z''\<rparr>
      else calm n)"

definition onSelect :: cacheAppendInput where
  "onSelect = \<lparr>PayloadID = ''pid-2'', TransactionID = ''t1'', MessageID = ''m3'',
               SubscriberURL = ''https://s'', Action = ''on_select'',
               Timestamp = ''2026-01-07T00:00:05Z'', TTLSecs = 0,
               Response = AMap fmempty\<rparr>"

text \<open>
  A store that holds the seeded document and its flow status, a configuration, an
  undisturbed call and a request for the seeded transaction.
\<close>

definition flowKey :: string where
  "flowKey = ''FLOW_STATUS_t1::https://s''"

definition withFlow :: redis where
  "withFlow = seeded(flowKey \<mapsto> \<lparr>content = JSONText (AMap fmempty), remaining = NoExpiry\<rparr>)"

definition defaults :: config where
  "defaults = \<lparr>SkipCacheUpdate = False, SkipNOPush = False, SkipDBSave = False,
                APITTLSecondsDefault = 30, CacheTTLSecondsDefault = 0\<rparr>"

definition steady :: statusEnv where
  "steady = \<lparr>existsErr = False, raced = None, setErr = False\<rparr>"

definition quietCall :: callEnv where
  "quietCall = \<lparr>wallClock = ''2026-01-07T00:00:00.5Z'', randomID = ''generated-id'',
                 cycles = calm, flow = steady\<rparr>"

definition searchData :: obj where
  "searchData = fmap_of_list
     [(''transaction_id'', AString ''t1''), (''subscriber_url'', AString ''https://s''),
      (''action'', AString ''on_search'')]"

definition searchEvent :: request where
  "searchEvent = BytesValue (Object
     \<lparr>requestBody = Some (AMap fmempty),
      responseBody = Some (AMap (fmap_of_list [(''ok'', ABool True)])),
      additionalData = Some (AMap searchData)\<rparr>)"





text \<open>Payloads without a request body, with a text as response body, and without
  additional data.\<close>

definition noRequestBody :: members where
  "noRequestBody = \<lparr>requestBody = None, responseBody = Some (AMap fmempty),
                     additionalData = Some (AMap searchData)\<rparr>"

definition textResponseBody :: members where
  "textResponseBody = \<lparr>requestBody = Some (AMap fmempty), responseBody = Some (AString ''ok''),
                        additionalData = Some (AMap searchData)\<rparr>"

definition noAdditionalData :: members where
  "noAdditionalData = \<lparr>requestBody = Some (AMap fmempty), responseBody = Some (AMap fmempty),
                        additionalData = None\<rparr>"

text \<open>A form submission whose camelCase submission id is blank.\<close>

definition snakeForm :: obj where
  "snakeForm = fmap_of_list
     [(''transaction_id'', AString ''t1''), (''subscriber_url'', AString ''https://s''),
      (''form_action_id'', AString ''form-123''), (''form_type'', AString ''HTML_FORM''),
      (''submissionId'', AString ''  ''), (''submission_id'', AString ''sub-snake'')]"


section \<open>One cycle and the retry loop\<close>

lemma unmarshalMap_err: "unmarshalMap s = Inl er \<Longrightarrow> er = jsonError"
  by (cases s rule: unmarshalMap.cases) auto

lemma txExec_cases:
  "txExec rdb e key v d = (rdb', r) \<Longrightarrow>
     (r = None \<and> touched e = None \<and> \<not> execErr e \<and> rdb' = redisSet rdb key v d) \<or>
     (r = Some ioError \<and> execErr e) \<or>
     (r = Some TxFailedErr \<and> \<not> execErr e \<and> (\<exists>w. touched e = Some w \<and> rdb' = rdb(key := w)))"
  by (auto simp: txExec_def split: option.splits if_splits)

lemma auditCycle_success:
  assumes "auditCycle rdb e key inp cacheTTL = (rdb', None)"
  shows "\<exists>ent m. rdb key = Some ent \<and> unmarshalMap (content ent) = Inr m \<and>
           rdb' = rdb(key \<mapsto> \<lparr>content = JSONText (AMap (auditAppend inp (clock e) (entries m))),
                               remaining = (if cacheTTL > 0 then ExpiresIn cacheTTL else NoExpiry)\<rparr>)"
  using assms
  by (auto simp: auditCycle_def Let_def redisSet_def KeepTTL_def
           split: if_splits option.splits sum.splits dest!: txExec_cases)

lemma auditCycle_conflict:
  assumes "auditCycle rdb e key inp cacheTTL = (rdb', Some TxFailedErr)"
  shows "\<exists>w. touched e = Some w \<and> rdb' = rdb(key := w)"
  using assms
  by (auto simp: auditCycle_def Let_def
           split: if_splits option.splits sum.splits dest!: txExec_cases unmarshalMap_err)

lemma auditCycle_errs:
  assumes "auditCycle rdb e key inp cacheTTL = (rdb', Some er)"
  shows "er \<in> {ioError, errNotFound, jsonError, TxFailedErr}"
  using assms
  by (auto simp: auditCycle_def Let_def
           split: if_splits option.splits sum.splits dest!: txExec_cases unmarshalMap_err)

lemma formCycle_success:
  assumes "formCycle rdb e key formID formType submissionID errVal = (rdb', None)"
  shows "\<exists>ent m. rdb key = Some ent \<and> unmarshalMap (content ent) = Inr m \<and>
           rdb' = rdb(key \<mapsto>
             \<lparr>content = JSONText (AMap (formAppend formID formType submissionID errVal (clock e) (entries m))),
              remaining = (if \<not> ttlErr e \<and> redisTTL rdb key > 0 then ExpiresIn (redisTTL rdb key)
                           else NoExpiry)\<rparr>)"
  using assms
  by (auto simp: formCycle_def Let_def redisSet_def KeepTTL_def
           split: if_splits option.splits sum.splits dest!: txExec_cases)

lemma formCycle_conflict:
  assumes "formCycle rdb e key formID formType submissionID errVal = (rdb', Some TxFailedErr)"
  shows "\<exists>w. touched e = Some w \<and> rdb' = rdb(key := w)"
  using assms
  by (auto simp: formCycle_def Let_def
           split: if_splits option.splits sum.splits dest!: txExec_cases unmarshalMap_err)

lemma formCycle_errs:
  assumes "formCycle rdb e key formID formType submissionID errVal = (rdb', Some er)"
  shows "er \<in> {ioError, errNotFound, jsonError, TxFailedErr}"
  using assms
  by (auto simp: formCycle_def Let_def
           split: if_splits option.splits sum.splits dest!: txExec_cases unmarshalMap_err)

lemma watchLoop_trace:
  assumes "watchLoop a cycle rdb = (rdb', res, tr)"
    and "a \<le> maxAttempts"
    and "\<forall>i r r'. cycle i r \<noteq> (r', Some errAborted)"
  shows "a + length tr \<le> maxAttempts \<and>
     (\<forall>i. Suc i < length tr \<longrightarrow> tr ! i = Some TxFailedErr) \<and>
     (res = Some errAborted \<longleftrightarrow> a + length tr = maxAttempts \<and> set tr \<subseteq> {Some TxFailedErr}) \<and>
     (res \<noteq> Some errAborted \<longrightarrow> tr \<noteq> [] \<and> last tr = res \<and> res \<noteq> Some TxFailedErr)"
  using assms
proof (induction a cycle rdb arbitrary: rdb' res tr rule: watchLoop.induct)
  case (1 attempt cycle rdb)
  note noab = "1.prems"(3)
  show ?case
  proof (cases "attempt < maxAttempts")
    case False
    with "1.prems" show ?thesis by (simp add: watchLoop.simps)
  next
    case True
    obtain rdb1 r where c: "cycle attempt rdb = (rdb1, r)"
      by (cases "cycle attempt rdb")
    show ?thesis
    proof (cases "r = Some TxFailedErr")
      case False
      with True c "1.prems" have "rdb' = rdb1" "res = r" "tr = [r]"
        by (auto simp: watchLoop.simps split: option.splits if_splits)
      moreover have "r \<noteq> Some errAborted" using noab c by auto
      ultimately show ?thesis using True False by simp
    next
      case tx: True
      obtain rdb2 res2 tr2 where
        rec: "watchLoop (Suc attempt) cycle rdb1 = (rdb2, res2, tr2)"
        by (cases "watchLoop (Suc attempt) cycle rdb1")
      with True c tx "1.prems" have eq: "rdb' = rdb2" "res = res2" "tr = Some TxFailedErr # tr2"
        by (auto simp: watchLoop.simps)
      have ih: "Suc attempt + length tr2 \<le> maxAttempts \<and>
         (\<forall>i. Suc i < length tr2 \<longrightarrow> tr2 ! i = Some TxFailedErr) \<and>
         (res2 = Some errAborted \<longleftrightarrow> Suc attempt + length tr2 = maxAttempts \<and> set tr2 \<subseteq> {Some TxFailedErr}) \<and>
         (res2 \<noteq> Some errAborted \<longrightarrow> tr2 \<noteq> [] \<and> last tr2 = res2 \<and> res2 \<noteq> Some TxFailedErr)"
        using "1.IH" [OF True c [symmetric] tx _ _ rec] True tx noab by simp
      have nth: "\<forall>i. Suc i < length tr \<longrightarrow> tr ! i = Some TxFailedErr"
      proof (intro allI impI)
        fix i assume "Suc i < length tr"
        then show "tr ! i = Some TxFailedErr"
          using ih eq by (cases i) auto
      qed
      from ih eq nth show ?thesis by auto
    qed
  qed
qed

text \<open>
  A successful run ends in a successful cycle; the store that cycle saw is the initial
  one, or the one a conflicting cycle left.
\<close>

lemma watchLoop_commit:
  assumes "watchLoop a cycle rdb = (rdb', None, tr)"
  shows "\<exists>rdb0. cycle (a + length tr - 1) rdb0 = (rdb', None) \<and>
           (if length tr = 1 then rdb0 = rdb
            else \<exists>rdbp. cycle (a + length tr - 2) rdbp = (rdb0, Some TxFailedErr))"
  using assms
proof (induction a cycle rdb arbitrary: tr rule: watchLoop.induct)
  case (1 attempt cycle rdb)
  from "1.prems" have lt: "attempt < maxAttempts"
    by (auto simp: watchLoop.simps split: if_splits)
  obtain rdb1 r where c: "cycle attempt rdb = (rdb1, r)"
    by (cases "cycle attempt rdb")
  show ?case
  proof (cases "r = Some TxFailedErr")
    case False
    with lt c "1.prems" have "rdb' = rdb1" "r = None" "tr = [None]"
      by (auto simp: watchLoop.simps split: option.splits if_splits)
    with c show ?thesis by auto
  next
    case tx: True
    obtain rdb2 res2 tr2 where
      rec: "watchLoop (Suc attempt) cycle rdb1 = (rdb2, res2, tr2)"
      by (cases "watchLoop (Suc attempt) cycle rdb1")
    with lt c tx "1.prems" have eq: "rdb' = rdb2" "res2 = None" "tr = Some TxFailedErr # tr2"
      by (auto simp: watchLoop.simps)
    from rec eq have rec': "watchLoop (Suc attempt) cycle rdb1 = (rdb', None, tr2)" by simp
    from "1.IH" [OF lt c [symmetric] tx _ _ rec'] tx
    obtain rdb0 where ih: "cycle (Suc attempt + length tr2 - 1) rdb0 = (rdb', None)"
      "if length tr2 = 1 then rdb0 = rdb1
       else \<exists>rdbp. cycle (Suc attempt + length tr2 - 2) rdbp = (rdb0, Some TxFailedErr)"
      by auto
    have ne: "tr2 \<noteq> []"
    proof
      assume "tr2 = []"
      with rec' show False
        by (subst (asm) watchLoop.simps) (auto split: if_splits option.splits prod.splits)
    qed
    show ?thesis
    proof (cases "length tr2 = 1")
      case True
      with ih c tx eq show ?thesis by auto
    next
      case False
      moreover from ne have "length tr2 \<noteq> 0" by simp
      ultimately have "length tr2 \<ge> 2" by arith
      with ih eq False show ?thesis by (auto simp: Suc_diff_le)
    qed
  qed
qed

lemma watchLoop_first:
  "cycle 0 rdb = (rdb', r) \<Longrightarrow> r \<noteq> Some TxFailedErr \<Longrightarrow> watchLoop 0 cycle rdb = (rdb', r, [r])"
  by (cases r) (auto simp: watchLoop.simps maxAttempts_def)

lemma watchLoop_commit0:
  assumes "watchLoop 0 cycle rdb = (rdb', None, tr)"
  shows "\<exists>rdb0. cycle (length tr - 1) rdb0 = (rdb', None) \<and>
           (length tr = 1 \<longrightarrow> rdb0 = rdb) \<and>
           (length tr \<noteq> 1 \<longrightarrow> (\<exists>rdbp. cycle (length tr - 2) rdbp = (rdb0, Some TxFailedErr)))"
proof -
  from watchLoop_commit [OF assms] obtain rdb0 where
    "cycle (0 + length tr - 1) rdb0 = (rdb', None)"
    "if length tr = 1 then rdb0 = rdb
     else \<exists>rdbp. cycle (0 + length tr - 2) rdbp = (rdb0, Some TxFailedErr)"
    by blast
  then show ?thesis by (cases "length tr = 1") auto
qed

lemma watchLoop_success_nonempty:
  assumes "watchLoop a cycle rdb = (rdb', None, tr)"
  shows "tr \<noteq> []"
proof
  assume "tr = []"
  with assms show False
    by (subst (asm) watchLoop.simps) (auto split: if_splits option.splits prod.splits)
qed

lemma update_success:
  assumes "updateTransactionAtomically envs rdb key inp cacheTTL = (rdb', None, tr)"
  shows "\<exists>ent m. readBy envs rdb key (length tr - 1) = Some ent \<and>
           unmarshalMap (content ent) = Inr m \<and>
           rdb' key = Some \<lparr>content = JSONText (AMap
                               (auditAppend inp (clock (envs (length tr - 1))) (entries m))),
                            remaining = (if cacheTTL > 0 then ExpiresIn cacheTTL else NoExpiry)\<rparr>"
proof -
  let ?cycle = "\<lambda>attempt rdb. auditCycle rdb (envs attempt) key inp cacheTTL"
  from assms have w: "watchLoop 0 ?cycle rdb = (rdb', None, tr)"
    by (simp add: updateTransactionAtomically_def)
  from watchLoop_commit0 [OF w] obtain rdb0 where
    c: "auditCycle rdb0 (envs (length tr - 1)) key inp cacheTTL = (rdb', None)" and
    r: "length tr = 1 \<longrightarrow> rdb0 = rdb"
       "length tr \<noteq> 1 \<longrightarrow>
          (\<exists>rdbp. auditCycle rdbp (envs (length tr - 2)) key inp cacheTTL = (rdb0, Some TxFailedErr))"
    by blast
  from auditCycle_success [OF c] obtain ent m where
    e: "rdb0 key = Some ent" "unmarshalMap (content ent) = Inr m"
       "rdb' = rdb0(key \<mapsto> \<lparr>content = JSONText (AMap (auditAppend inp (clock (envs (length tr - 1))) (entries m))),
                               remaining = (if cacheTTL > 0 then ExpiresIn cacheTTL else NoExpiry)\<rparr>)"
    by blast
  have "readBy envs rdb key (length tr - 1) = rdb0 key"
  proof (cases "length tr = 1")
    case True
    with r show ?thesis by (simp add: readBy_def)
  next
    case False
    with r obtain rdbp where
      "auditCycle rdbp (envs (length tr - 2)) key inp cacheTTL = (rdb0, Some TxFailedErr)" by auto
    from auditCycle_conflict [OF this] obtain w where
      t: "touched (envs (length tr - 2)) = Some w" "rdb0 = rdbp(key := w)" by blast
    have "tr \<noteq> []" by (rule watchLoop_success_nonempty [OF w])
    with False have "length tr - 1 = Suc (length tr - 2)" by (cases tr) auto
    with t show ?thesis by (simp add: readBy_def)
  qed
  with e show ?thesis by auto
qed

lemma form_success:
  assumes "appendFormEntryAtomically envs (Some rdb) tid url formID formType sub errVal = (client', None)"
  shows "\<exists>rdb' n ent m. client' = Some rdb' \<and> n < maxAttempts \<and>
           createTransactionKey tid url \<noteq> [] \<and>
           readBy envs rdb (createTransactionKey tid url) n = Some ent \<and>
           unmarshalMap (content ent) = Inr m \<and>
           map_option content (rdb' (createTransactionKey tid url)) =
             Some (JSONText (AMap (formAppend formID formType sub errVal (clock (envs n)) (entries m))))"
proof -
  let ?key = "createTransactionKey tid url"
  let ?cycle = "\<lambda>attempt rdb. formCycle rdb (envs attempt) ?key formID formType sub errVal"
  from assms have k: "?key \<noteq> []"
    by (auto simp: appendFormEntryAtomically_def Let_def split: if_splits)
  obtain rdb' res tr where w0: "watchLoop 0 ?cycle rdb = (rdb', res, tr)"
    by (cases "watchLoop 0 ?cycle rdb")
  with assms k have cl: "client' = Some rdb'" and "res = None"
    by (auto simp: appendFormEntryAtomically_def Let_def)
  with w0 have w: "watchLoop 0 ?cycle rdb = (rdb', None, tr)" by simp
  have noab: "\<forall>i r r'. ?cycle i r \<noteq> (r', Some errAborted)"
    using formCycle_errs by fastforce
  from watchLoop_trace [OF w _ noab] have len: "length tr \<le> maxAttempts" "tr \<noteq> []" by auto
  from watchLoop_commit0 [OF w] obtain rdb0 where
    c: "formCycle rdb0 (envs (length tr - 1)) ?key formID formType sub errVal = (rdb', None)" and
    r: "length tr = 1 \<longrightarrow> rdb0 = rdb"
       "length tr \<noteq> 1 \<longrightarrow>
          (\<exists>rdbp. formCycle rdbp (envs (length tr - 2)) ?key formID formType sub errVal = (rdb0, Some TxFailedErr))"
    by blast
  from formCycle_success [OF c] obtain ent m where
    e: "rdb0 ?key = Some ent" "unmarshalMap (content ent) = Inr m"
       "map_option content (rdb' ?key) =
          Some (JSONText (AMap (formAppend formID formType sub errVal (clock (envs (length tr - 1))) (entries m))))"
    by auto
  have "readBy envs rdb ?key (length tr - 1) = rdb0 ?key"
  proof (cases "length tr = 1")
    case True
    with r show ?thesis by (simp add: readBy_def)
  next
    case False
    with r obtain rdbp where
      "formCycle rdbp (envs (length tr - 2)) ?key formID formType sub errVal = (rdb0, Some TxFailedErr)" by auto
    from formCycle_conflict [OF this] obtain w where
      t: "touched (envs (length tr - 2)) = Some w" "rdb0 = rdbp(?key := w)" by blast
    from len False have "length tr - 1 = Suc (length tr - 2)" by (cases tr) auto
    with t show ?thesis by (simp add: readBy_def)
  qed
  moreover from len have "length tr - 1 < maxAttempts" by (cases tr) auto
  ultimately show ?thesis using e cl k by auto
qed

lemma updateTransactionAtomically_noab:
  "\<forall>i r r'. auditCycle r (envs i) key inp cacheTTL \<noteq> (r', Some errAborted)"
  using auditCycle_errs by fastforce

section \<open>The two transforms\<close>

lemma messageIdsOf_strings: "messageIdsOf (Some (ASlice (map AString ids))) = ids"
  by (induction ids) (simp_all add: map_filter_simps)



lemma auditAppend_messageIds:
  "fmlookup (auditAppend inp now txn) ''messageIds'' =
     (if TrimSpace (MessageID inp) = [] then fmlookup txn ''messageIds''
      else Some (ASlice (map AString
             (if TrimSpace (MessageID inp) \<in> set (messageIdsOf (fmlookup txn ''messageIds''))
              then messageIdsOf (fmlookup txn ''messageIds'')
              else messageIdsOf (fmlookup txn ''messageIds'') @ [TrimSpace (MessageID inp)]))))"
  by (simp add: auditAppend_def Let_def)


lemma formAppend_apiList:
  "fmlookup (formAppend formID formType sub errVal now txn) ''apiList'' =
     Some (ASlice (apiListOf (fmlookup txn ''apiList'') @ [AMap (formEntry formID formType sub errVal now)]))"
  by (simp add: formAppend_def Let_def)


lemma formEntry_fields:
  "fmlookup (formEntry formID formType sub errVal now) ''entryType'' = Some (AString ''FORM'')"
  "fmlookup (formEntry formID formType sub errVal now) ''submissionId'' =
     (if TrimSpace sub = [] then None else Some (AString (TrimSpace sub)))"
  by (simp_all add: formEntry_def Let_def)

lemma documentIn_Some:
  "unmarshalMap (content ent) = Inr m \<Longrightarrow> documentIn (Some ent) = entries m"
  by (simp add: documentIn_def)

lemma documentIn_written:
  "e = Some ent \<Longrightarrow> content ent = JSONText (AMap d) \<Longrightarrow> documentIn e = d"
  by (simp add: documentIn_def entries_def)

lemma update_success_doc:
  assumes "updateTransactionAtomically envs rdb key inp cacheTTL = (rdb', None, tr)"
  shows "documentIn (rdb' key) =
           auditAppend inp (clock (envs (length tr - 1)))
             (documentIn (readBy envs rdb key (length tr - 1)))"
    and "readBy envs rdb key (length tr - 1) \<noteq> None" and "rdb' key \<noteq> None"
proof -
  from update_success [OF assms] obtain ent m where
    e: "readBy envs rdb key (length tr - 1) = Some ent" "unmarshalMap (content ent) = Inr m"
       "rdb' key = Some \<lparr>content = JSONText (AMap
                               (auditAppend inp (clock (envs (length tr - 1))) (entries m))),
                            remaining = (if cacheTTL > 0 then ExpiresIn cacheTTL else NoExpiry)\<rparr>"
    by blast
  from e(3) have "documentIn (rdb' key) = auditAppend inp (clock (envs (length tr - 1))) (entries m)"
    by (simp add: documentIn_def entries_def)
  with e show "documentIn (rdb' key) =
           auditAppend inp (clock (envs (length tr - 1)))
             (documentIn (readBy envs rdb key (length tr - 1)))"
    by (simp add: documentIn_Some)
  from e show "readBy envs rdb key (length tr - 1) \<noteq> None" "rdb' key \<noteq> None" by simp_all
qed

lemma form_success_doc:
  assumes "appendFormEntryAtomically envs (Some rdb) tid url formID formType sub errVal = (client', None)"
  shows "\<exists>rdb' n. client' = Some rdb' \<and> n < maxAttempts \<and>
           createTransactionKey tid url \<noteq> [] \<and>
           readBy envs rdb (createTransactionKey tid url) n \<noteq> None \<and>
           rdb' (createTransactionKey tid url) \<noteq> None \<and>
           documentIn (rdb' (createTransactionKey tid url)) =
             formAppend formID formType sub errVal (clock (envs n))
               (documentIn (readBy envs rdb (createTransactionKey tid url) n))"
proof -
  let ?key = "createTransactionKey tid url"
  from form_success [OF assms] obtain rdb' n ent m where
    e: "client' = Some rdb'" "n < maxAttempts" "?key \<noteq> []"
       "readBy envs rdb ?key n = Some ent" "unmarshalMap (content ent) = Inr m"
       "map_option content (rdb' ?key) =
             Some (JSONText (AMap (formAppend formID formType sub errVal (clock (envs n)) (entries m))))"
    by blast
  from e(6) obtain ent' where
    w: "rdb' ?key = Some ent'"
       "content ent' = JSONText (AMap (formAppend formID formType sub errVal (clock (envs n)) (entries m)))"
    by auto
  from documentIn_written [OF w] e show ?thesis
    by (auto simp: documentIn_Some w)
qed

section \<open>Undisturbed calls\<close>

lemma calm_update:
  assumes "rdb key = Some ent" and "unmarshalMap (content ent) = Inr m"
    and "\<not> watchErr (envs 0)" "\<not> getErr (envs 0)" "touched (envs 0) = None" "\<not> execErr (envs 0)"
  shows "updateTransactionAtomically envs rdb key inp cacheTTL =
     (rdb(key \<mapsto> \<lparr>content = JSONText (AMap (auditAppend inp (clock (envs 0)) (entries m))),
                    remaining = (if cacheTTL > 0 then ExpiresIn cacheTTL else NoExpiry)\<rparr>),
      None, [None])"
proof -
  from assms have "auditCycle rdb (envs 0) key inp cacheTTL =
     (rdb(key \<mapsto> \<lparr>content = JSONText (AMap (auditAppend inp (clock (envs 0)) (entries m))),
                    remaining = (if cacheTTL > 0 then ExpiresIn cacheTTL else NoExpiry)\<rparr>), None)"
    by (simp add: auditCycle_def txExec_def redisSet_def KeepTTL_def)
  then show ?thesis
    unfolding updateTransactionAtomically_def by (intro watchLoop_first) auto
qed

lemma calm_seeded:
  "updateTransactionAtomically calm seeded seedKey inp cacheTTL =
     (seeded(seedKey \<mapsto> \<lparr>content = JSONText (AMap (auditAppend inp (clock (calm 0)) seedDoc)),
                          remaining = (if cacheTTL > 0 then ExpiresIn cacheTTL else NoExpiry)\<rparr>),
      None, [None])"
proof -
  have "seeded seedKey =
          Some \<lparr>content = JSONText (AMap seedDoc), remaining = ExpiresIn 3600000000000\<rparr>"
    by (simp add: seeded_def)
  from calm_update [of seeded seedKey _ "Some seedDoc" calm, OF this]
  show ?thesis by (simp add: calm_def entries_def)
qed









lemma count_list_distinct: "distinct xs \<Longrightarrow> x \<in> set xs \<Longrightarrow> count_list xs x = 1"
  by (induction xs) (auto simp: count_list_0_iff)

lemma TrimSpace_m2: "TrimSpace ''m2'' = ''m2''" by code_simp
lemma TrimSpace_m3: "TrimSpace ''m3'' = ''m3''" by code_simp

lemma seeded_document: "documentIn (seeded seedKey) = seedDoc"
  by (simp add: documentIn_def seeded_def entries_def)

section \<open>Keys a writer does not touch\<close>

lemma flowKey_differs:
  "createFlowStatusCacheKey t u \<noteq> [] \<Longrightarrow> createFlowStatusCacheKey t u \<noteq> createTransactionKey t u"
proof
  assume ne: "createFlowStatusCacheKey t u \<noteq> []"
    and eq: "createFlowStatusCacheKey t u = createTransactionKey t u"
  from ne have f: "createFlowStatusCacheKey t u = ''FLOW_STATUS_'' @ TrimSpace t @ ''::'' @ TrimSpace u"
    by (auto simp: createFlowStatusCacheKey_def Let_def split: if_splits)
  with eq have k: "createTransactionKey t u = TrimSpace t @ ''::'' @ TrimRightSlash (TrimSpace u)"
    by (auto simp: createTransactionKey_def Let_def split: if_splits)
  have "length (TrimRightSlash (TrimSpace u)) \<le> length (TrimSpace u)"
    by (simp add: TrimRightSlash_def) (metis length_dropWhile_le length_rev)
  moreover from f k eq have "length (''FLOW_STATUS_'' @ TrimSpace t @ ''::'' @ TrimSpace u) =
      length (TrimSpace t @ ''::'' @ TrimRightSlash (TrimSpace u))" by simp
  ultimately show False by simp
qed

lemma auditCycle_other_keys:
  "auditCycle rdb e key inp cacheTTL = (rdb', r) \<Longrightarrow> k \<noteq> key \<Longrightarrow> rdb' k = rdb k"
  by (auto simp: auditCycle_def Let_def txExec_def redisSet_def
           split: if_splits option.splits sum.splits)

lemma watchLoop_other_keys:
  assumes "watchLoop a cycle rdb = (rdb', res, tr)"
    and "\<forall>i r r' x. cycle i r = (r', x) \<longrightarrow> r' k = r k"
  shows "rdb' k = rdb k"
  using assms
proof (induction a cycle rdb arbitrary: rdb' res tr rule: watchLoop.induct)
  case (1 attempt cycle rdb)
  show ?case
  proof (cases "attempt < maxAttempts")
    case False
    with "1.prems" show ?thesis by (simp add: watchLoop.simps)
  next
    case True
    obtain rdb1 r where c: "cycle attempt rdb = (rdb1, r)"
      by (cases "cycle attempt rdb")
    with "1.prems"(2) have k1: "rdb1 k = rdb k" by blast
    show ?thesis
    proof (cases "r = Some TxFailedErr")
      case False
      with True c "1.prems" have "rdb' = rdb1"
        by (auto simp: watchLoop.simps split: option.splits if_splits)
      with k1 show ?thesis by simp
    next
      case tx: True
      obtain rdb2 res2 tr2 where
        rec: "watchLoop (Suc attempt) cycle rdb1 = (rdb2, res2, tr2)"
        by (cases "watchLoop (Suc attempt) cycle rdb1")
      with True c tx "1.prems" have eq: "rdb' = rdb2"
        by (auto simp: watchLoop.simps)
      from "1.IH" [OF True c [symmetric] tx _ _ rec] tx "1.prems"(2)
      have "rdb2 k = rdb1 k" by simp
      with eq k1 show ?thesis by simp
    qed
  qed
qed

lemma update_other_keys:
  assumes "updateTransactionAtomically envs rdb key inp cacheTTL = (rdb', res, tr)" and "k \<noteq> key"
  shows "rdb' k = rdb k"
proof -
  from assms(1) have w: "watchLoop 0 (\<lambda>attempt rdb. auditCycle rdb (envs attempt) key inp cacheTTL) rdb
      = (rdb', res, tr)" by (simp add: updateTransactionAtomically_def)
  show ?thesis
    by (rule watchLoop_other_keys [OF w]) (use assms(2) auditCycle_other_keys in blast)
qed

lemma prepare_Inr:
  assumes "prepare cfg now uuid req = Inr q"
  shows "pKey q = createTransactionKey (dTransactionID (pDerived q)) (dSubscriberURL (pDerived q))"
    and "pKey q \<noteq> []"
    and "0 \<le> sint (dCacheTTLSecs (pDerived q))"
  using assms
  by (auto simp: prepare_def resolve_def Let_def split: request.splits sum.splits if_splits)

lemma transactionKey_flowKey:
  "createTransactionKey t u \<noteq> [] \<Longrightarrow> createFlowStatusCacheKey t u \<noteq> []"
  by (auto simp: createTransactionKey_def createFlowStatusCacheKey_def Let_def TrimRightSlash_def
           split: if_splits)

lemma setFlowStatus_absent:
  "rdb (createFlowStatusCacheKey t u) = None \<Longrightarrow>
     setFlowStatusIfExists (Some rdb) e t u st ttl = (Some rdb, if createFlowStatusCacheKey t u \<noteq> [] \<and> existsErr e then Some ioError else None)"
  by (simp add: setFlowStatusIfExists_def Let_def)

lemma setFlowStatus_present:
  assumes "createFlowStatusCacheKey t u \<noteq> []" "rdb (createFlowStatusCacheKey t u) \<noteq> None"
    "\<not> existsErr e" "\<not> setErr e" "ttl > 0"
  shows "\<exists>rdb'. setFlowStatusIfExists (Some rdb) e t u st ttl = (Some rdb', None) \<and>
           rdb' (createFlowStatusCacheKey t u) =
             Some \<lparr>content = JSONText (AMap (fmap_of_list [(''status'', AString st)])),
                   remaining = ExpiresIn ttl\<rparr> \<and>
           (\<forall>k. k \<noteq> createFlowStatusCacheKey t u \<longrightarrow> rdb' k = rdb k)"
  using assms
  by (auto simp: setFlowStatusIfExists_def Let_def redisSet_def split: option.splits)

section \<open>The example call\<close>

lemma flowKey_derived: "createFlowStatusCacheKey ''t1'' ''https://s'' = flowKey"
  unfolding flowKey_def by code_simp

lemma searchEvent_prepared:
  "prepare defaults (wallClock quietCall) (randomID quietCall) searchEvent =
     Inr (projr (prepare defaults (wallClock quietCall) (randomID quietCall) searchEvent))"
proof -
  have "\<not> isl (prepare defaults (wallClock quietCall) (randomID quietCall) searchEvent)"
    by code_simp
  then show ?thesis by simp
qed

lemma searchEvent_flowKey:
  "createFlowStatusCacheKey
     (dTransactionID (pDerived (projr (prepare defaults (wallClock quietCall) (randomID quietCall) searchEvent))))
     (dSubscriberURL (pDerived (projr (prepare defaults (wallClock quietCall) (randomID quietCall) searchEvent))))
   = flowKey"
  unfolding flowKey_def by code_simp

lemma searchEvent_logged:
  "LogEvent defaults quietCall withFlow searchEvent =
     (fst (LogEvent defaults quietCall withFlow searchEvent), Inr (),
      snd (snd (LogEvent defaults quietCall withFlow searchEvent)))"
proof -
  have "fst (snd (LogEvent defaults quietCall withFlow searchEvent)) = Inr ()" by code_simp
  then show ?thesis by (metis prod.collapse)
qed

section \<open>Derived fields and the prepared call\<close>










lemma LogEvent_rejected:
  "prepare cfg (wallClock ce) (randomID ce) req = Inl st \<Longrightarrow> LogEvent cfg ce rdb req = (rdb, Inl st, [])"
  by (simp add: LogEvent_def)



section \<open>The form handler\<close>

lemma htmlForm_ok:
  assumes "htmlForm envs client \<lparr>Method = ''POST'', Body = Decoded (AMap formData)\<rparr> = (client', 200, msg)"
  shows "\<exists>tid url fid. fmlookup formData ''transaction_id'' = Some (AString tid) \<and>
           fmlookup formData ''subscriber_url'' = Some (AString url) \<and>
           fmlookup formData ''form_action_id'' = Some (AString fid) \<and>
           appendFormEntryAtomically envs client tid url fid (getString formData ''form_type'')
             (submissionIDOf formData)
             (case fmlookup formData ''error'' of None \<Rightarrow> ANil | Some v \<Rightarrow> v) = (client', None)"
proof -
  have s: "assertString v = (case v of Some (AString s) \<Rightarrow> (s, True) | _ \<Rightarrow> ([], False))" for v
    by (cases v rule: assertString.cases) auto
  have g: "fst (assertString (fmlookup formData k)) = getString formData k" for k
    by (simp add: s getString_def split: option.splits any.splits)
  obtain tid ok1 where 1: "assertString (fmlookup formData ''transaction_id'') = (tid, ok1)"
    by (cases "assertString (fmlookup formData ''transaction_id'')")
  obtain url ok2 where 2: "assertString (fmlookup formData ''subscriber_url'') = (url, ok2)"
    by (cases "assertString (fmlookup formData ''subscriber_url'')")
  obtain fid ok3 where 3: "assertString (fmlookup formData ''form_action_id'') = (fid, ok3)"
    by (cases "assertString (fmlookup formData ''form_action_id'')")
  from assms 1 2 3 have ok: "ok1" "ok2" "ok3"
    by (auto simp: htmlForm_def Let_def split: if_splits)
  have v: "assertString v = (x, True) \<Longrightarrow> v = Some (AString x)" for v x
    by (cases v rule: assertString.cases) auto
  from ok 1 2 3 have f: "fmlookup formData ''transaction_id'' = Some (AString tid)"
    "fmlookup formData ''subscriber_url'' = Some (AString url)"
    "fmlookup formData ''form_action_id'' = Some (AString fid)" by (simp_all add: v)
  from assms 1 2 3 ok have "appendFormEntryAtomically envs client tid url fid
      (fst (assertString (fmlookup formData ''form_type''))) (submissionIDOf formData)
      (case fmlookup formData ''error'' of None \<Rightarrow> ANil | Some v \<Rightarrow> v) = (client', None)"
    by (auto simp: htmlForm_def Let_def split: prod.splits option.splits)
  with f g show ?thesis by auto
qed

lemma submissionIDOf_choice:
  "submissionIDOf formData =
     (if TrimSpace (getString formData ''submissionId'') \<noteq> [] then getString formData ''submissionId''
      else getString formData ''submission_id'')"
proof -
  have s: "assertString v = (case v of Some (AString s) \<Rightarrow> (s, True) | _ \<Rightarrow> ([], False))" for v
    by (cases v rule: assertString.cases) auto
  have g: "fst (assertString (fmlookup formData k)) = getString formData k" for k
    by (simp add: s getString_def split: option.splits any.splits)
  show ?thesis by (simp add: submissionIDOf_def Let_def g)
qed

section \<open>Runs of the retry loop, from the environment\<close>

lemma watchLoop_step_conflict:
  assumes "attempt < maxAttempts" and "snd (cycle attempt rdb) = Some TxFailedErr"
  shows "watchLoop attempt cycle rdb =
     (case watchLoop (Suc attempt) cycle (fst (cycle attempt rdb)) of
        (r, e, t) \<Rightarrow> (r, e, Some TxFailedErr # t))"
proof -
  obtain r1 where "cycle attempt rdb = (r1, Some TxFailedErr)"
    using assms(2) by (cases "cycle attempt rdb") auto
  with assms(1) show ?thesis
    by (subst watchLoop.simps) simp
qed

lemma watchLoop_step_settled:
  assumes "attempt < maxAttempts" and "snd (cycle attempt rdb) \<noteq> Some TxFailedErr"
  shows "watchLoop attempt cycle rdb =
     (fst (cycle attempt rdb), snd (cycle attempt rdb), [snd (cycle attempt rdb)])"
proof -
  obtain r1 x where c: "cycle attempt rdb = (r1, x)" by (cases "cycle attempt rdb")
  with assms(2) have "x \<noteq> Some TxFailedErr" by simp
  with assms(1) c show ?thesis
    by (subst watchLoop.simps) (cases x; auto)
qed

lemma watchLoop_step_exhausted:
  "watchLoop maxAttempts cycle rdb = (rdb, Some errAborted, [])"
  by (subst watchLoop.simps) simp

lemma watchLoop_conflicts:
  assumes "\<forall>i<n. snd (cycle i (storeOf cycle rdb i)) = Some TxFailedErr" and "n \<le> maxAttempts"
  shows "watchLoop 0 cycle rdb =
     (case watchLoop n cycle (storeOf cycle rdb n) of
        (r, e, t) \<Rightarrow> (r, e, replicate n (Some TxFailedErr) @ t))"
  using assms
proof (induction n)
  case 0
  then show ?case by (simp split: prod.splits)
next
  case (Suc n)
  then have ih: "watchLoop 0 cycle rdb =
     (case watchLoop n cycle (storeOf cycle rdb n) of
        (r, e, t) \<Rightarrow> (r, e, replicate n (Some TxFailedErr) @ t))"
    by simp
  from Suc.prems have "n < maxAttempts" "snd (cycle n (storeOf cycle rdb n)) = Some TxFailedErr"
    by simp_all
  from watchLoop_step_conflict [where cycle = cycle and rdb = "storeOf cycle rdb n"
      and attempt = n, OF this]
  have "watchLoop n cycle (storeOf cycle rdb n) =
     (case watchLoop (Suc n) cycle (storeOf cycle rdb (Suc n)) of
        (r, e, t) \<Rightarrow> (r, e, Some TxFailedErr # t))"
    by simp
  with ih show ?case
    by (simp split: prod.splits add: replicate_app_Cons_same)
qed

lemma watchLoop_settles:
  assumes "\<forall>i<n. snd (cycle i (storeOf cycle rdb i)) = Some TxFailedErr" and "n < maxAttempts"
    and "snd (cycle n (storeOf cycle rdb n)) \<noteq> Some TxFailedErr"
  shows "watchLoop 0 cycle rdb =
     (storeOf cycle rdb (Suc n), snd (cycle n (storeOf cycle rdb n)),
      replicate n (Some TxFailedErr) @ [snd (cycle n (storeOf cycle rdb n))])"
proof -
  from assms(2) have "n \<le> maxAttempts" by simp
  from watchLoop_conflicts [where cycle = cycle and rdb = rdb and n = n, OF assms(1) this]
    watchLoop_step_settled [where cycle = cycle and rdb = "storeOf cycle rdb n" and attempt = n,
      OF assms(2,3)]
  show ?thesis by simp
qed

lemma watchLoop_exhausts:
  assumes "\<forall>i<maxAttempts. snd (cycle i (storeOf cycle rdb i)) = Some TxFailedErr"
  shows "watchLoop 0 cycle rdb =
     (storeOf cycle rdb maxAttempts, Some errAborted, replicate maxAttempts (Some TxFailedErr))"
  using watchLoop_conflicts [where cycle = cycle and rdb = rdb and n = maxAttempts,
      OF assms order_refl]
  by (simp add: watchLoop_step_exhausted)

text \<open>The first attempt that does not end in a conflict, when there is one.\<close>

lemma first_settled:
  fixes m :: nat
  assumes "\<exists>i<m. P i"
  obtains n where "n < m" "P n" "\<forall>i<n. \<not> P i"
proof -
  define n where "n = (LEAST i. P i)"
  from assms obtain k where k: "k < m" "P k" by blast
  have 1: "P n" unfolding n_def by (rule LeastI [of P k, OF k(2)])
  have "n \<le> k" unfolding n_def by (rule Least_le [of P k, OF k(2)])
  with k(1) have 2: "n < m" by simp
  have 3: "\<forall>i<n. \<not> P i" unfolding n_def using not_less_Least [of _ P] by blast
  show ?thesis by (rule that [OF 2 1 3])
qed


lemma audit_conflict_store:
  assumes "auditOutcome envs rdb key inp cacheTTL i = Some TxFailedErr"
  shows "\<exists>w. touched (envs i) = Some w \<and>
           auditStore envs rdb key inp cacheTTL (Suc i) =
             (auditStore envs rdb key inp cacheTTL i)(key := w)"
proof -
  let ?s = "auditStore envs rdb key inp cacheTTL i"
  from assms have "auditCycle ?s (envs i) key inp cacheTTL =
      (fst (auditCycle ?s (envs i) key inp cacheTTL), Some TxFailedErr)"
    unfolding auditOutcome_def by (metis prod.collapse)
  from auditCycle_conflict [OF this] show ?thesis
    by (simp add: auditStore_def)
qed






lemma auditCycle_touched:
  assumes "\<not> watchErr e" "\<not> getErr e" "\<not> execErr e" "store key = Some ent"
    "unmarshalMap (content ent) = Inr m" "touched e = Some w"
  shows "auditCycle store e key inp cacheTTL = (store(key := w), Some TxFailedErr)"
  using assms by (simp add: auditCycle_def txExec_def Let_def)

lemma contended_store:
  "\<exists>r. auditStore contended seeded seedKey inp cacheTTL i seedKey =
         Some \<lparr>content = JSONText (AMap seedDoc), remaining = r\<rparr>"
proof (induction i)
  case 0
  show ?case by (simp add: auditStore_def seeded_def)
next
  case (Suc i)
  then obtain r where r: "auditStore contended seeded seedKey inp cacheTTL i seedKey =
         Some \<lparr>content = JSONText (AMap seedDoc), remaining = r\<rparr>" by blast
  have "auditCycle (auditStore contended seeded seedKey inp cacheTTL i) (contended i) seedKey inp cacheTTL
      = ((auditStore contended seeded seedKey inp cacheTTL i)
           (seedKey := Some \<lparr>content = JSONText (AMap seedDoc), remaining = NoExpiry\<rparr>),
         Some TxFailedErr)"
    by (rule auditCycle_touched [where store = "auditStore contended seeded seedKey inp cacheTTL i"
          and key = seedKey and m = "Some seedDoc", OF _ _ _ r]) (simp_all add: contended_def)
  then have "auditStore contended seeded seedKey inp cacheTTL (Suc i) =
      (auditStore contended seeded seedKey inp cacheTTL i)
           (seedKey := Some \<lparr>content = JSONText (AMap seedDoc), remaining = NoExpiry\<rparr>)"
    by (simp add: auditStore_def)
  then show ?case by simp
qed

lemma contended_outcome:
  "auditOutcome contended seeded seedKey inp cacheTTL i = Some TxFailedErr"
proof -
  obtain r where r: "auditStore contended seeded seedKey inp cacheTTL i seedKey =
         Some \<lparr>content = JSONText (AMap seedDoc), remaining = r\<rparr>"
    using contended_store by blast
  have "auditCycle (auditStore contended seeded seedKey inp cacheTTL i) (contended i) seedKey inp cacheTTL
      = ((auditStore contended seeded seedKey inp cacheTTL i)
           (seedKey := Some \<lparr>content = JSONText (AMap seedDoc), remaining = NoExpiry\<rparr>),
         Some TxFailedErr)"
    by (rule auditCycle_touched [where store = "auditStore contended seeded seedKey inp cacheTTL i"
          and key = seedKey and m = "Some seedDoc", OF _ _ _ r]) (simp_all add: contended_def)
  then show ?thesis by (simp add: auditOutcome_def)
qed

lemma once_audit_first:
  "auditCycle seeded (contendedOnce 0) seedKey inp cacheTTL =
     (seeded(seedKey \<mapsto> \<lparr>content = JSONText (AMap otherDoc), remaining = NoExpiry\<rparr>),
      Some TxFailedErr)"
  by (simp add: auditCycle_def txExec_def contendedOnce_def seeded_def Let_def)

lemma once_audit_second:
  "auditCycle (seeded(seedKey \<mapsto> \<lparr>content = JSONText (AMap otherDoc), remaining = NoExpiry\<rparr>))
     (contendedOnce (Suc 0)) seedKey inp cacheTTL =
     (seeded(seedKey \<mapsto> \<lparr>content = JSONText (AMap (auditAppend inp (clock (calm 0)) otherDoc)),
                          remaining = (if cacheTTL > 0 then ExpiresIn cacheTTL else NoExpiry)\<rparr>),
      None)"
  by (simp add: auditCycle_def txExec_def contendedOnce_def calm_def redisSet_def KeepTTL_def
        entries_def Let_def)

lemma once_audit_stores:
  "auditStore contendedOnce seeded seedKey inp cacheTTL 0 = seeded"
  "auditStore contendedOnce seeded seedKey inp cacheTTL (Suc 0) =
     seeded(seedKey \<mapsto> \<lparr>content = JSONText (AMap otherDoc), remaining = NoExpiry\<rparr>)"
  "auditStore contendedOnce seeded seedKey inp cacheTTL (Suc (Suc 0)) =
     seeded(seedKey \<mapsto> \<lparr>content = JSONText (AMap (auditAppend inp (clock (calm 0)) otherDoc)),
                          remaining = (if cacheTTL > 0 then ExpiresIn cacheTTL else NoExpiry)\<rparr>)"
  by (simp_all add: auditStore_def once_audit_first once_audit_second)

lemma once_audit_outcomes:
  "auditOutcome contendedOnce seeded seedKey inp cacheTTL 0 = Some TxFailedErr"
  "auditOutcome contendedOnce seeded seedKey inp cacheTTL (Suc 0) = None"
  by (simp_all add: auditOutcome_def once_audit_stores once_audit_first once_audit_second)











section \<open>The document key\<close>

lemma TrimRightSlash_decomp: "\<exists>n. s = TrimRightSlash s @ replicate n CHR ''/''"
proof -
  let ?P = "\<lambda>c. c = CHR ''/''"
  have "rev s = takeWhile ?P (rev s) @ dropWhile ?P (rev s)" by simp
  moreover have "takeWhile ?P (rev s) = replicate (length (takeWhile ?P (rev s))) CHR ''/''"
  proof (rule replicate_length_same [symmetric])
    show "\<forall>y\<in>set (takeWhile ?P (rev s)). y = CHR ''/''"
      using set_takeWhileD by fastforce
  qed
  ultimately have "rev s = replicate (length (takeWhile ?P (rev s))) CHR ''/'' @ dropWhile ?P (rev s)"
    by simp
  then have "s = rev (dropWhile ?P (rev s)) @ replicate (length (takeWhile ?P (rev s))) CHR ''/''"
    by (metis rev_append rev_replicate rev_rev_ident)
  then show ?thesis unfolding TrimRightSlash_def by blast
qed

lemma TrimRightSlash_last: "TrimRightSlash s \<noteq> [] \<Longrightarrow> last (TrimRightSlash s) \<noteq> CHR ''/''"
proof -
  assume "TrimRightSlash s \<noteq> []"
  then have ne: "dropWhile (\<lambda>c. c = CHR ''/'') (rev s) \<noteq> []"
    by (simp add: TrimRightSlash_def)
  from hd_dropWhile [OF ne] show ?thesis
    by (simp add: TrimRightSlash_def last_rev)
qed

lemma TrimRightSlash_Nil: "TrimRightSlash s = [] \<longleftrightarrow> set s \<subseteq> {CHR ''/''}"
  unfolding TrimRightSlash_def by (auto simp: dropWhile_eq_Nil_conv)

lemma TrimRightSlash_one: "\<not> suffix ''//'' s \<Longrightarrow> TrimRightSlash s = stripOneSlash s"
proof (cases s rule: rev_cases)
  case Nil
  then show ?thesis by (simp add: TrimRightSlash_def stripOneSlash_def)
next
  case (snoc xs c)
  assume ns: "\<not> suffix ''//'' s"
  show ?thesis
  proof (cases "c = CHR ''/''")
    case False
    with snoc show ?thesis by (simp add: TrimRightSlash_def stripOneSlash_def)
  next
    case True
    have "xs = [] \<or> last xs \<noteq> CHR ''/''"
    proof (rule ccontr)
      assume "\<not> (xs = [] \<or> last xs \<noteq> CHR ''/'')"
      then have "xs = butlast xs @ [CHR ''/'']" by (metis append_butlast_last_id)
      with snoc True have "s = butlast xs @ ''//''" by simp
      then have "suffix ''//'' s" by (metis suffixI)
      with ns show False by simp
    qed
    then have "dropWhile (\<lambda>c. c = CHR ''/'') (rev xs) = rev xs"
      by (cases xs rule: rev_cases) auto
    with snoc True show ?thesis by (simp add: TrimRightSlash_def stripOneSlash_def)
  qed
qed

text \<open>
  C2 (as amended). The key is empty exactly when the trimmed id is empty or the trimmed
  URL consists of slashes only; otherwise it is the trimmed id, \<open>::\<close> and the trimmed URL
  without all of its trailing slashes, which is the key of the specification whenever
  the trimmed URL does not end in two slashes; and the three keys of the specification's
  examples are as stated.
\<close>

theorem createTransactionKey_normalised:
  "(createTransactionKey i u = [] \<longleftrightarrow> TrimSpace i = [] \<or> set (TrimSpace u) \<subseteq> {CHR ''/''}) \<and>
   (createTransactionKey i u \<noteq> [] \<longrightarrow>
      (\<exists>r n. TrimSpace u = r @ replicate n CHR ''/'' \<and> r \<noteq> [] \<and> last r \<noteq> CHR ''/'' \<and>
             createTransactionKey i u = TrimSpace i @ ''::'' @ r)) \<and>
   (\<not> suffix ''//'' (TrimSpace u) \<longrightarrow> createTransactionKey i u = transactionKeySpec i u) \<and>
   createTransactionKey ''  t1  '' '' https://ex.com/ '' = ''t1::https://ex.com'' \<and>
   createTransactionKey '''' ''x'' = '''' \<and>
   createTransactionKey ''t1'' '''' = ''''"
proof (intro conjI impI)
  show e: "createTransactionKey i u = [] \<longleftrightarrow> TrimSpace i = [] \<or> set (TrimSpace u) \<subseteq> {CHR ''/''}"
    by (simp add: createTransactionKey_def Let_def TrimRightSlash_Nil)
  show "\<exists>r n. TrimSpace u = r @ replicate n CHR ''/'' \<and> r \<noteq> [] \<and> last r \<noteq> CHR ''/'' \<and>
             createTransactionKey i u = TrimSpace i @ ''::'' @ r"
    if ne: "createTransactionKey i u \<noteq> []"
  proof -
    from ne have r: "TrimRightSlash (TrimSpace u) \<noteq> []" and t: "TrimSpace i \<noteq> []"
      by (auto simp: createTransactionKey_def Let_def split: if_splits)
    obtain n where "TrimSpace u = TrimRightSlash (TrimSpace u) @ replicate n CHR ''/''"
      using TrimRightSlash_decomp by blast
    moreover have "createTransactionKey i u = TrimSpace i @ ''::'' @ TrimRightSlash (TrimSpace u)"
      using r t by (simp add: createTransactionKey_def Let_def)
    ultimately show ?thesis using r TrimRightSlash_last [OF r] by blast
  qed
  show "createTransactionKey i u = transactionKeySpec i u" if "\<not> suffix ''//'' (TrimSpace u)"
    using that by (simp add: createTransactionKey_def transactionKeySpec_def TrimRightSlash_one)
  show "createTransactionKey ''  t1  '' '' https://ex.com/ '' = ''t1::https://ex.com''" by code_simp
  show "createTransactionKey '''' ''x'' = ''''" by code_simp
  show "createTransactionKey ''t1'' '''' = ''''" by code_simp
qed

text \<open>The theorem at the inputs of the specification's first example.\<close>

theorem createTransactionKey_normalised_witness:
  "\<not> suffix ''//'' (TrimSpace '' https://ex.com/ '') \<and>
   createTransactionKey '' t1 '' '' https://ex.com/ '' \<noteq> [] \<and>
   createTransactionKey '' t1 '' '' https://ex.com/ '' = transactionKeySpec '' t1 '' '' https://ex.com/ ''"
proof -
  have a: "\<not> suffix ''//'' (TrimSpace '' https://ex.com/ '')" by code_simp
  have b: "createTransactionKey '' t1 '' '' https://ex.com/ '' \<noteq> []" by code_simp
  from a b createTransactionKey_normalised [of "'' t1 ''" "'' https://ex.com/ ''"]
  show ?thesis by blast
qed

text \<open>
  C2 as stated fails: of two trailing slashes the code strips both, where stripping
  exactly one would leave one.
\<close>

theorem createTransactionKey_strips_every_slash:
  "createTransactionKey ''t1'' ''https://ex.com//'' = ''t1::https://ex.com'' \<and>
   transactionKeySpec ''t1'' ''https://ex.com//'' = ''t1::https://ex.com/''"
proof
  show "createTransactionKey ''t1'' ''https://ex.com//'' = ''t1::https://ex.com''" by code_simp
  show "transactionKeySpec ''t1'' ''https://ex.com//'' = ''t1::https://ex.com/''" by code_simp
qed

section \<open>The time to live after an audit append\<close>

text \<open>
  C1 (as amended). After a successful audit append the key expires after the override
  when the override is positive and has no expiry otherwise, whatever time to live it had
  before: the append does not read the remaining time to live. So a document without
  expiry keeps none unless a positive override is supplied, and a finite time to live is
  replaced, never preserved.
\<close>

theorem audit_append_expiry:
  "updateTransactionAtomically envs rdb key inp cacheTTL = (rdb', None, tr) \<Longrightarrow>
     map_option remaining (rdb' key) =
       Some (if cacheTTL > 0 then ExpiresIn cacheTTL else NoExpiry)"
  by (drule update_success) auto

text \<open>The theorem on the seeded document with an override of 60 seconds.\<close>

theorem audit_append_expiry_witness:
  "fst (snd (updateTransactionAtomically calm seeded seedKey onSearch 60000000000)) = None \<and>
   map_option remaining
     (fst (updateTransactionAtomically calm seeded seedKey onSearch 60000000000) seedKey) =
     Some (ExpiresIn 60000000000)"
proof -
  let ?U = "updateTransactionAtomically calm seeded seedKey onSearch 60000000000"
  have n: "fst (snd ?U) = None" by (simp add: calm_seeded)
  then have "?U = (fst ?U, None, snd (snd ?U))" by (metis prod.collapse)
  from audit_append_expiry [OF this] n show ?thesis by simp
qed

text \<open>
  C1 as stated fails: the document seeded with a time to live of 3600 seconds has no
  expiry after a successful audit append without override.
\<close>

theorem audit_append_resets_ttl:
  "map_option remaining (seeded seedKey) = Some (ExpiresIn 3600000000000) \<and>
   fst (snd (updateTransactionAtomically calm seeded seedKey onSearch 0)) = None \<and>
   map_option remaining (fst (updateTransactionAtomically calm seeded seedKey onSearch 0) seedKey) =
     Some NoExpiry"
  by (simp add: calm_seeded) (simp add: seeded_def)
section \<open>The retry policy\<close>

text \<open>
  C3. The run of \<open>updateTransactionAtomically\<close> is fixed by the cycles themselves:
  \<open>auditStore \<dots> i\<close> is the store on which attempt \<open>i\<close> starts (the store the attempts
  before it left) and \<open>auditOutcome \<dots> i\<close> is what \<open>auditCycle\<close> returns on that store.
  If attempt \<open>n < 8\<close> is the first whose cycle does not end in a conflict
  (\<open>TxFailedErr\<close>), the call runs exactly the cycles \<open>0 \<dots> n\<close> and returns the outcome of
  cycle \<open>n\<close> with the store that cycle left; if all of the first 8 cycles end in a conflict
  it runs exactly those 8 and returns \<open>errAborted\<close>. A cycle that ends in a conflict wrote
  nothing of its own: the store it leaves is the one it found with the key as the other
  client left it. No cycle returns \<open>errAborted\<close> itself. Hence, for every call: it runs at
  least one and at most 8 cycles, entry \<open>i\<close> of the record of its cycles is the outcome of
  \<open>auditCycle\<close> on the store of attempt \<open>i\<close>, the store it returns is the one its last cycle
  left, every cycle but the last one ended in a conflict and the last one did only when it
  was the eighth, it returns \<open>errAborted\<close> exactly when it ran 8 cycles that all ended in a
  conflict, and any other result is the outcome of the last cycle. When the key is absent
  at the first read the call returns \<open>errNotFound\<close> after that one cycle and the store is
  untouched. A cycle that finds no key gives \<open>errNotFound\<close>, one whose text does not decode
  gives the decoding error, one whose connection fails before the read gives that error,
  each without writing; one during which another client wrote the key, with no failure of
  the connection, gives the conflict.
\<close>

theorem updateTransactionAtomically_attempts:
  "(\<forall>n<8. (\<forall>i<n. auditOutcome envs rdb key inp cacheTTL i = Some TxFailedErr) \<and>
           auditOutcome envs rdb key inp cacheTTL n \<noteq> Some TxFailedErr \<longrightarrow>
      updateTransactionAtomically envs rdb key inp cacheTTL =
        (auditStore envs rdb key inp cacheTTL (Suc n), auditOutcome envs rdb key inp cacheTTL n,
         replicate n (Some TxFailedErr) @ [auditOutcome envs rdb key inp cacheTTL n])) \<and>
   ((\<forall>i<8. auditOutcome envs rdb key inp cacheTTL i = Some TxFailedErr) \<longrightarrow>
      updateTransactionAtomically envs rdb key inp cacheTTL =
        (auditStore envs rdb key inp cacheTTL 8, Some errAborted, replicate 8 (Some TxFailedErr))) \<and>
   (\<forall>i. auditOutcome envs rdb key inp cacheTTL i = Some TxFailedErr \<longrightarrow>
      (\<exists>w. touched (envs i) = Some w \<and>
           auditStore envs rdb key inp cacheTTL (Suc i) =
             (auditStore envs rdb key inp cacheTTL i)(key := w))) \<and>
   (\<forall>i. auditOutcome envs rdb key inp cacheTTL i \<noteq> Some errAborted) \<and>
   (case updateTransactionAtomically envs rdb key inp cacheTTL of
      (rdb', res, tr) \<Rightarrow>
        tr \<noteq> [] \<and> length tr \<le> 8 \<and>
        (\<forall>i<length tr. tr ! i = auditOutcome envs rdb key inp cacheTTL i) \<and>
        rdb' = auditStore envs rdb key inp cacheTTL (length tr) \<and>
        (last tr = Some TxFailedErr \<longrightarrow> length tr = 8) \<and>
        (\<forall>i. Suc i < length tr \<longrightarrow> tr ! i = Some TxFailedErr) \<and>
        (res = Some errAborted \<longleftrightarrow> tr = replicate 8 (Some TxFailedErr)) \<and>
        (res \<noteq> Some errAborted \<longrightarrow> last tr = res \<and> res \<noteq> Some TxFailedErr)) \<and>
   (\<not> watchErr (envs 0) \<and> \<not> getErr (envs 0) \<and> rdb key = None \<longrightarrow>
      updateTransactionAtomically envs rdb key inp cacheTTL =
        (rdb, Some errNotFound, [Some errNotFound])) \<and>
   (\<forall>e store. \<not> watchErr e \<and> \<not> getErr e \<and> store key = None \<longrightarrow>
      auditCycle store e key inp cacheTTL = (store, Some errNotFound)) \<and>
   (\<forall>e store ent. \<not> watchErr e \<and> \<not> getErr e \<and> store key = Some ent \<and>
        (\<forall>m. unmarshalMap (content ent) \<noteq> Inr m) \<longrightarrow>
      auditCycle store e key inp cacheTTL = (store, Some jsonError)) \<and>
   (\<forall>e store. watchErr e \<or> getErr e \<longrightarrow>
      auditCycle store e key inp cacheTTL = (store, Some ioError)) \<and>
   (\<forall>e store ent m w. \<not> watchErr e \<and> \<not> getErr e \<and> \<not> execErr e \<and> store key = Some ent \<and>
        unmarshalMap (content ent) = Inr m \<and> touched e = Some w \<longrightarrow>
      auditCycle store e key inp cacheTTL = (store(key := w), Some TxFailedErr))"
proof -
  let ?cycle = "\<lambda>attempt rdb. auditCycle rdb (envs attempt) key inp cacheTTL"
  let ?O = "auditOutcome envs rdb key inp cacheTTL"
  let ?S = "auditStore envs rdb key inp cacheTTL"
  let ?U = "updateTransactionAtomically envs rdb key inp cacheTTL"
  have settle: "?U = (?S (Suc n), ?O n, replicate n (Some TxFailedErr) @ [?O n])"
    if "n < 8" "\<forall>i<n. ?O i = Some TxFailedErr" "?O n \<noteq> Some TxFailedErr" for n
    using watchLoop_settles [where cycle = ?cycle and rdb = rdb and n = n] that
    by (simp add: updateTransactionAtomically_def auditOutcome_def auditStore_def maxAttempts_def)
  have exhaust: "?U = (?S 8, Some errAborted, replicate 8 (Some TxFailedErr))"
    if "\<forall>i<8. ?O i = Some TxFailedErr"
    using watchLoop_exhausts [where cycle = ?cycle and rdb = rdb] that
    by (simp add: updateTransactionAtomically_def auditOutcome_def auditStore_def maxAttempts_def)
  have noab: "?O i \<noteq> Some errAborted" for i
  proof -
    obtain s r where sr: "auditCycle (?S i) (envs i) key inp cacheTTL = (s, r)"
      by (cases "auditCycle (?S i) (envs i) key inp cacheTTL")
    from updateTransactionAtomically_noab [where envs = envs and key = key and inp = inp
        and cacheTTL = cacheTTL] sr
    have "r \<noteq> Some errAborted" by blast
    with sr show ?thesis
      by (simp add: auditOutcome_def)
  qed
  have a1: "\<forall>n<8. (\<forall>i<n. ?O i = Some TxFailedErr) \<and> ?O n \<noteq> Some TxFailedErr \<longrightarrow>
      ?U = (?S (Suc n), ?O n, replicate n (Some TxFailedErr) @ [?O n])"
    using settle by blast
  have a2: "(\<forall>i<8. ?O i = Some TxFailedErr) \<longrightarrow>
      ?U = (?S 8, Some errAborted, replicate 8 (Some TxFailedErr))"
    using exhaust by blast
  have a3: "\<forall>i. ?O i = Some TxFailedErr \<longrightarrow>
      (\<exists>w. touched (envs i) = Some w \<and> ?S (Suc i) = (?S i)(key := w))"
    using audit_conflict_store by blast
  have a4: "\<forall>i. ?O i \<noteq> Some errAborted"
    using noab by blast
  have shape: "case ?U of
      (rdb', res, tr) \<Rightarrow>
        tr \<noteq> [] \<and> length tr \<le> 8 \<and>
        (\<forall>i<length tr. tr ! i = ?O i) \<and>
        rdb' = ?S (length tr) \<and>
        (last tr = Some TxFailedErr \<longrightarrow> length tr = 8) \<and>
        (\<forall>i. Suc i < length tr \<longrightarrow> tr ! i = Some TxFailedErr) \<and>
        (res = Some errAborted \<longleftrightarrow> tr = replicate 8 (Some TxFailedErr)) \<and>
        (res \<noteq> Some errAborted \<longrightarrow> last tr = res \<and> res \<noteq> Some TxFailedErr)"
  proof (cases "\<exists>i<8. ?O i \<noteq> Some TxFailedErr")
    case True
    then obtain n where n: "n < 8" "?O n \<noteq> Some TxFailedErr" "\<forall>i<n. \<not> ?O i \<noteq> Some TxFailedErr"
      by (rule first_settled)
    then have c: "\<forall>i<n. ?O i = Some TxFailedErr" by simp
    define tr where "tr = replicate n (Some TxFailedErr) @ [?O n]"
    have u: "?U = (?S (Suc n), ?O n, tr)" unfolding tr_def by (rule settle [OF n(1) c n(2)])
    have l: "length tr = Suc n" and ne: "tr \<noteq> []" and la: "last tr = ?O n"
      by (simp_all add: tr_def)
    have nth: "tr ! i = ?O i" if "i < length tr" for i
    proof (cases "i < n")
      case True
      with c show ?thesis by (simp add: tr_def nth_append)
    next
      case False
      with that l have "i = n" by simp
      then show ?thesis by (simp add: tr_def nth_append)
    qed
    have pre: "tr ! i = Some TxFailedErr" if "Suc i < length tr" for i
      using that l c by (simp add: tr_def nth_append)
    have "tr \<noteq> replicate 8 (Some TxFailedErr)"
    proof
      assume "tr = replicate 8 (Some TxFailedErr)"
      then have "last tr = Some TxFailedErr" by simp
      with la n(2) show False by simp
    qed
    then have nr: "(?O n = Some errAborted) = (tr = replicate 8 (Some TxFailedErr))"
      using noab [of n] by simp
    have fin: "last tr = Some TxFailedErr \<longrightarrow> length tr = 8"
      using la n(2) by simp
    have le: "length tr \<le> 8" using l n(1) by simp
    have st: "?S (Suc n) = ?S (length tr)" using l by simp
    have res: "?O n \<noteq> Some errAborted \<longrightarrow> last tr = ?O n \<and> ?O n \<noteq> Some TxFailedErr"
      using la n(2) by simp
    show ?thesis
      unfolding u prod.case using ne le nth st fin pre nr res by blast
  next
    case False
    then have a: "\<forall>i<8. ?O i = Some TxFailedErr" by simp
    have nth: "\<forall>i<8. replicate 8 (Some TxFailedErr) ! i = ?O i"
      using a by simp
    have pre: "\<forall>i. Suc i < 8 \<longrightarrow> replicate 8 (Some TxFailedErr) ! i = Some TxFailedErr"
      by simp
    show ?thesis
      unfolding exhaust [OF a] prod.case using nth pre by simp
  qed
  have nf: "\<not> watchErr (envs 0) \<and> \<not> getErr (envs 0) \<and> rdb key = None \<longrightarrow>
      ?U = (rdb, Some errNotFound, [Some errNotFound])"
  proof
    assume a: "\<not> watchErr (envs 0) \<and> \<not> getErr (envs 0) \<and> rdb key = None"
    from a have "auditCycle rdb (envs 0) key inp cacheTTL = (rdb, Some errNotFound)"
      by (simp add: auditCycle_def)
    then show "?U = (rdb, Some errNotFound, [Some errNotFound])"
      unfolding updateTransactionAtomically_def by (intro watchLoop_first) auto
  qed
  have c1: "\<forall>e store. \<not> watchErr e \<and> \<not> getErr e \<and> store key = None \<longrightarrow>
      auditCycle store e key inp cacheTTL = (store, Some errNotFound)"
    by (simp add: auditCycle_def)
  have c2: "\<forall>e store ent. \<not> watchErr e \<and> \<not> getErr e \<and> store key = Some ent \<and>
        (\<forall>m. unmarshalMap (content ent) \<noteq> Inr m) \<longrightarrow>
      auditCycle store e key inp cacheTTL = (store, Some jsonError)"
    by (auto simp: auditCycle_def split: sum.splits dest: unmarshalMap_err)
  have c3: "\<forall>e store. watchErr e \<or> getErr e \<longrightarrow>
      auditCycle store e key inp cacheTTL = (store, Some ioError)"
    by (simp add: auditCycle_def)
  have c4: "\<forall>e store ent m w. \<not> watchErr e \<and> \<not> getErr e \<and> \<not> execErr e \<and> store key = Some ent \<and>
        unmarshalMap (content ent) = Inr m \<and> touched e = Some w \<longrightarrow>
      auditCycle store e key inp cacheTTL = (store(key := w), Some TxFailedErr)"
    using auditCycle_touched by blast
  show ?thesis
    by (intro conjI) (rule a1, rule a2, rule a3, rule a4, rule shape, rule nf, rule c1, rule c2,
      rule c3, rule c4)
qed

text \<open>
  The theorem on a run in which another client rewrites the key during each of the
  eight cycles, on a run in which another client rewrites it during the first cycle only,
  so that the second cycle commits on what that client left, and on a run against an
  empty store.
\<close>

theorem updateTransactionAtomically_attempts_witness:
  "(\<forall>i. auditOutcome contended seeded seedKey onSearch 0 i = Some TxFailedErr) \<and>
   updateTransactionAtomically contended seeded seedKey onSearch 0 =
     (auditStore contended seeded seedKey onSearch 0 8, Some errAborted,
      replicate 8 (Some TxFailedErr)) \<and>
   auditOutcome contendedOnce seeded seedKey onSearch 0 0 = Some TxFailedErr \<and>
   auditOutcome contendedOnce seeded seedKey onSearch 0 (Suc 0) = None \<and>
   updateTransactionAtomically contendedOnce seeded seedKey onSearch 0 =
     (seeded(seedKey \<mapsto>
        \<lparr>content = JSONText (AMap (auditAppend onSearch (clock (calm 0)) otherDoc)),
         remaining = NoExpiry\<rparr>),
      None, [Some TxFailedErr, None]) \<and>
   \<not> watchErr (calm 0) \<and> \<not> getErr (calm 0) \<and> Map.empty seedKey = (None :: entry option) \<and>
   updateTransactionAtomically calm Map.empty seedKey onSearch 0 =
     (Map.empty, Some errNotFound, [Some errNotFound])"
proof -
  note inst = updateTransactionAtomically_attempts [of contended seeded seedKey onSearch 0]
  note once = updateTransactionAtomically_attempts [of contendedOnce seeded seedKey onSearch 0]
  note none = updateTransactionAtomically_attempts [of calm Map.empty seedKey onSearch 0]
  have a: "\<forall>i. auditOutcome contended seeded seedKey onSearch 0 i = Some TxFailedErr"
    by (simp add: contended_outcome)
  from inst a have r: "updateTransactionAtomically contended seeded seedKey onSearch 0 =
     (auditStore contended seeded seedKey onSearch 0 8, Some errAborted,
      replicate 8 (Some TxFailedErr))"
    by blast
  have o: "auditOutcome contendedOnce seeded seedKey onSearch 0 0 = Some TxFailedErr"
    "auditOutcome contendedOnce seeded seedKey onSearch 0 (Suc 0) = None"
    by (rule once_audit_outcomes)+
  have p: "(Suc 0) < 8 \<and> (\<forall>i<Suc 0. auditOutcome contendedOnce seeded seedKey onSearch 0 i = Some TxFailedErr) \<and>
      auditOutcome contendedOnce seeded seedKey onSearch 0 (Suc 0) \<noteq> Some TxFailedErr"
    using o by simp
  from once have "\<forall>n<8. (\<forall>i<n. auditOutcome contendedOnce seeded seedKey onSearch 0 i = Some TxFailedErr) \<and>
           auditOutcome contendedOnce seeded seedKey onSearch 0 n \<noteq> Some TxFailedErr \<longrightarrow>
      updateTransactionAtomically contendedOnce seeded seedKey onSearch 0 =
        (auditStore contendedOnce seeded seedKey onSearch 0 (Suc n), auditOutcome contendedOnce seeded seedKey onSearch 0 n,
         replicate n (Some TxFailedErr) @ [auditOutcome contendedOnce seeded seedKey onSearch 0 n])"
    by (rule conjunct1)
  with p have "updateTransactionAtomically contendedOnce seeded seedKey onSearch 0 =
        (auditStore contendedOnce seeded seedKey onSearch 0 (Suc (Suc 0)),
         auditOutcome contendedOnce seeded seedKey onSearch 0 (Suc 0),
         replicate (Suc 0) (Some TxFailedErr) @ [auditOutcome contendedOnce seeded seedKey onSearch 0 (Suc 0)])"
    by blast
  then have s: "updateTransactionAtomically contendedOnce seeded seedKey onSearch 0 =
     (seeded(seedKey \<mapsto>
        \<lparr>content = JSONText (AMap (auditAppend onSearch (clock (calm 0)) otherDoc)),
         remaining = NoExpiry\<rparr>),
      None, [Some TxFailedErr, None])"
    by (simp add: o once_audit_stores)
  have c: "\<not> watchErr (calm 0) \<and> \<not> getErr (calm 0) \<and> Map.empty seedKey = (None :: entry option)"
    by (simp add: calm_def)
  with none
  have n: "updateTransactionAtomically calm Map.empty seedKey onSearch 0 =
     (Map.empty, Some errNotFound, [Some errNotFound])"
    by blast
  from a r o s c n show ?thesis by blast
qed
section \<open>The list of entries\<close>



section \<open>The message ids\<close>

text \<open>
  C5. After a successful audit append, with the message id trimmed: a blank id leaves the
  field \<open>messageIds\<close> as the committing cycle read it; an id that is already among the
  ids leaves the ids as they were (the field itself when it is an array of strings, as
  the data model has it), with exactly one occurrence of the id when the ids were
  distinct; a new id is appended at the end, after the prior ids in their order.
\<close>

theorem messageIds_deduplicated:
  "updateTransactionAtomically envs rdb key inp cacheTTL = (rdb', None, tr) \<Longrightarrow>
     (let old = fmlookup (documentIn (readBy envs rdb key (length tr - 1))) ''messageIds'';
          new = fmlookup (documentIn (rdb' key)) ''messageIds'';
          mid = TrimSpace (MessageID inp)
      in (mid = [] \<longrightarrow> new = old) \<and>
         (mid \<noteq> [] \<and> mid \<in> set (messageIdsOf old) \<longrightarrow>
            messageIdsOf new = messageIdsOf old \<and>
            (old = Some (ASlice (map AString (messageIdsOf old))) \<longrightarrow> new = old) \<and>
            (distinct (messageIdsOf old) \<longrightarrow> count_list (messageIdsOf new) mid = 1)) \<and>
         (mid \<noteq> [] \<and> mid \<notin> set (messageIdsOf old) \<longrightarrow>
            new = Some (ASlice (map AString (messageIdsOf old @ [mid]))) \<and>
            messageIdsOf new = messageIdsOf old @ [mid]))"
proof -
  assume a: "updateTransactionAtomically envs rdb key inp cacheTTL = (rdb', None, tr)"
  define old where "old = fmlookup (documentIn (readBy envs rdb key (length tr - 1))) ''messageIds''"
  define new where "new = fmlookup (documentIn (rdb' key)) ''messageIds''"
  define mid where "mid = TrimSpace (MessageID inp)"
  from update_success_doc(1) [OF a]
  have n: "new = (if mid = [] then old
                  else Some (ASlice (map AString
                         (if mid \<in> set (messageIdsOf old) then messageIdsOf old
                          else messageIdsOf old @ [mid]))))"
    by (simp add: new_def old_def mid_def auditAppend_messageIds)
  have 1: "mid = [] \<longrightarrow> new = old" using n by simp
  have 2: "mid \<noteq> [] \<and> mid \<in> set (messageIdsOf old) \<longrightarrow>
            messageIdsOf new = messageIdsOf old \<and>
            (old = Some (ASlice (map AString (messageIdsOf old))) \<longrightarrow> new = old) \<and>
            (distinct (messageIdsOf old) \<longrightarrow> count_list (messageIdsOf new) mid = 1)"
  proof
    assume h: "mid \<noteq> [] \<and> mid \<in> set (messageIdsOf old)"
    with n have e: "new = Some (ASlice (map AString (messageIdsOf old)))" by simp
    have m: "messageIdsOf new = messageIdsOf old"
      unfolding e by (rule messageIdsOf_strings)
    moreover from e have "old = Some (ASlice (map AString (messageIdsOf old))) \<longrightarrow> new = old"
      by simp
    moreover from m h have "distinct (messageIdsOf old) \<longrightarrow> count_list (messageIdsOf new) mid = 1"
      by (simp add: count_list_distinct)
    ultimately show "messageIdsOf new = messageIdsOf old \<and>
            (old = Some (ASlice (map AString (messageIdsOf old))) \<longrightarrow> new = old) \<and>
            (distinct (messageIdsOf old) \<longrightarrow> count_list (messageIdsOf new) mid = 1)"
      by blast
  qed
  have 3: "mid \<noteq> [] \<and> mid \<notin> set (messageIdsOf old) \<longrightarrow>
            new = Some (ASlice (map AString (messageIdsOf old @ [mid]))) \<and>
            messageIdsOf new = messageIdsOf old @ [mid]"
  proof
    assume h: "mid \<noteq> [] \<and> mid \<notin> set (messageIdsOf old)"
    with n have e: "new = Some (ASlice (map AString (messageIdsOf old @ [mid])))" by simp
    have "messageIdsOf new = messageIdsOf old @ [mid]"
      unfolding e by (rule messageIdsOf_strings)
    with e show "new = Some (ASlice (map AString (messageIdsOf old @ [mid]))) \<and>
            messageIdsOf new = messageIdsOf old @ [mid]" by blast
  qed
  from 1 2 3 show ?thesis
    unfolding Let_def old_def [symmetric] new_def [symmetric] mid_def [symmetric] by blast
qed

text \<open>
  The theorem on the seeded document, whose ids are m1 and m2: the id m2 again, and the
  new id m3.
\<close>

theorem messageIds_deduplicated_witness:
  "fst (snd (updateTransactionAtomically calm seeded seedKey onSearch 0)) = None \<and>
   TrimSpace (MessageID onSearch) = ''m2'' \<and>
   fmlookup (documentIn (seeded seedKey)) ''messageIds'' = Some (ASlice [AString ''m1'', AString ''m2'']) \<and>
   fmlookup (documentIn (fst (updateTransactionAtomically calm seeded seedKey onSearch 0) seedKey))
     ''messageIds'' = Some (ASlice [AString ''m1'', AString ''m2'']) \<and>
   fst (snd (updateTransactionAtomically calm seeded seedKey onSelect 0)) = None \<and>
   TrimSpace (MessageID onSelect) = ''m3'' \<and>
   fmlookup (documentIn (fst (updateTransactionAtomically calm seeded seedKey onSelect 0) seedKey))
     ''messageIds'' = Some (ASlice [AString ''m1'', AString ''m2'', AString ''m3''])"
proof -
  let ?U = "updateTransactionAtomically calm seeded seedKey onSearch 0"
  let ?V = "updateTransactionAtomically calm seeded seedKey onSelect 0"
  have u: "?U = (fst ?U, None, [None])" and v: "?V = (fst ?V, None, [None])"
    by (simp_all add: calm_seeded)
  have old: "fmlookup (documentIn (seeded seedKey)) ''messageIds'' =
               Some (ASlice [AString ''m1'', AString ''m2''])"
    by (simp add: seeded_document seedDoc_def)
  have m2: "TrimSpace (MessageID onSearch) = ''m2''" by (simp add: onSearch_def TrimSpace_m2)
  have m3: "TrimSpace (MessageID onSelect) = ''m3''" by (simp add: onSelect_def TrimSpace_m3)
  from messageIds_deduplicated [OF u] old m2
  have 1: "fmlookup (documentIn (fst ?U seedKey)) ''messageIds'' =
             Some (ASlice [AString ''m1'', AString ''m2''])"
    by (simp add: Let_def readBy_def map_filter_simps)
  from messageIds_deduplicated [OF v] old m3
  have 2: "fmlookup (documentIn (fst ?V seedKey)) ''messageIds'' =
             Some (ASlice [AString ''m1'', AString ''m2'', AString ''m3''])"
    by (simp add: Let_def readBy_def map_filter_simps)
  from u v have "fst (snd ?U) = None" "fst (snd ?V) = None" by (metis fst_conv snd_conv)+
  with 1 2 old m2 m3 show ?thesis by blast
qed

section \<open>The flow status\<close>

text \<open>
  C6. When the flow-status key is absent, \<open>setFlowStatusIfExists\<close> leaves the store as it
  is (and returns no error unless \<open>EXISTS\<close> itself fails). When the key is present and
  the two commands go through, the key afterwards holds \<open>{status: statusValue}\<close> and
  expires after the positive duration supplied, and no other key has changed. In a
  successful \<open>LogEvent\<close> that updates the cache, an absent flow-status key of the
  transaction stays absent and a present one ends as \<open>{status: AVAILABLE}\<close> with a time to
  live of 5 hours.
\<close>

theorem setFlowStatusIfExists_effect:
  "(rdb (createFlowStatusCacheKey t u) = None \<longrightarrow>
      fst (setFlowStatusIfExists (Some rdb) e t u st ttl) = Some rdb \<and>
      (\<not> existsErr e \<longrightarrow> setFlowStatusIfExists (Some rdb) e t u st ttl = (Some rdb, None))) \<and>
   (createFlowStatusCacheKey t u \<noteq> [] \<and> rdb (createFlowStatusCacheKey t u) \<noteq> None \<and>
    \<not> existsErr e \<and> \<not> setErr e \<and> ttl > 0 \<longrightarrow>
      (\<exists>rdb'. setFlowStatusIfExists (Some rdb) e t u st ttl = (Some rdb', None) \<and>
         rdb' (createFlowStatusCacheKey t u) =
           Some \<lparr>content = JSONText (AMap (fmap_of_list [(''status'', AString st)])),
                 remaining = ExpiresIn ttl\<rparr> \<and>
         (\<forall>k. k \<noteq> createFlowStatusCacheKey t u \<longrightarrow> rdb' k = rdb k))) \<and>
   (\<not> SkipCacheUpdate cfg \<and> prepare cfg (wallClock ce) (randomID ce) req = Inr q \<and>
    LogEvent cfg ce store req = (store', Inr (), jobs) \<longrightarrow>
      (let fk = createFlowStatusCacheKey (dTransactionID (pDerived q)) (dSubscriberURL (pDerived q))
       in (store fk = None \<longrightarrow> store' fk = None) \<and>
          (store fk \<noteq> None \<and> \<not> existsErr (flow ce) \<and> \<not> setErr (flow ce) \<longrightarrow>
             store' fk = Some \<lparr>content = JSONText (AMap (fmap_of_list [(''status'', AString ''AVAILABLE'')])),
                                remaining = ExpiresIn (5 * 3600000000000)\<rparr>)))"
proof (intro conjI impI)
  assume "rdb (createFlowStatusCacheKey t u) = None"
  from setFlowStatus_absent [where rdb = rdb and t = t and u = u and e = e and st = st
      and ttl = ttl, OF this]
  show "fst (setFlowStatusIfExists (Some rdb) e t u st ttl) = Some rdb"
    and "\<not> existsErr e \<Longrightarrow> setFlowStatusIfExists (Some rdb) e t u st ttl = (Some rdb, None)"
    by simp_all
next
  assume "createFlowStatusCacheKey t u \<noteq> [] \<and> rdb (createFlowStatusCacheKey t u) \<noteq> None \<and>
    \<not> existsErr e \<and> \<not> setErr e \<and> ttl > 0"
  then show "\<exists>rdb'. setFlowStatusIfExists (Some rdb) e t u st ttl = (Some rdb', None) \<and>
         rdb' (createFlowStatusCacheKey t u) =
           Some \<lparr>content = JSONText (AMap (fmap_of_list [(''status'', AString st)])),
                 remaining = ExpiresIn ttl\<rparr> \<and>
         (\<forall>k. k \<noteq> createFlowStatusCacheKey t u \<longrightarrow> rdb' k = rdb k)"
    using setFlowStatus_present by blast
next
  assume a: "\<not> SkipCacheUpdate cfg \<and> prepare cfg (wallClock ce) (randomID ce) req = Inr q \<and>
    LogEvent cfg ce store req = (store', Inr (), jobs)"
  define d where "d = pDerived q"
  define fk where "fk = createFlowStatusCacheKey (dTransactionID d) (dSubscriberURL d)"
  define inp where "inp = \<lparr>PayloadID = dPayloadID d, TransactionID = dTransactionID d,
      MessageID = dMessageID d, SubscriberURL = dSubscriberURL d, Action = dAction d,
      Timestamp = dTimestamp d, TTLSecs = dTTLSecs d,
      Response = AMap (entries (ResponseBody (pPayload q)))\<rparr>"
  from a have p: "prepare cfg (wallClock ce) (randomID ce) req = Inr q" by simp
  from prepare_Inr [OF p] have k: "pKey q = createTransactionKey (dTransactionID d) (dSubscriberURL d)"
    "pKey q \<noteq> []" by (simp_all add: d_def)
  then have fkne: "fk \<noteq> []" unfolding fk_def by (intro transactionKey_flowKey) simp
  with k have diff: "fk \<noteq> pKey q" unfolding fk_def using flowKey_differs by metis
  obtain s1 res tr where u: "updateTransactionAtomically (cycles ce) store (pKey q) inp (pCacheTTL q) = (s1, res, tr)"
    by (cases "updateTransactionAtomically (cycles ce) store (pKey q) inp (pCacheTTL q)")
  from update_other_keys [OF u diff] have s1: "s1 fk = store fk" .
  from a p u have res: "res = None"
    by (auto simp: LogEvent_def Let_def d_def inp_def split: if_splits option.splits)
  obtain c w where f: "setFlowStatusIfExists (Some s1) (flow ce) (dTransactionID d)
       (dSubscriberURL d) ''AVAILABLE'' (5 * 3600000000000) = (c, w)"
    by (cases "setFlowStatusIfExists (Some s1) (flow ce) (dTransactionID d)
       (dSubscriberURL d) ''AVAILABLE'' (5 * 3600000000000)")
  from a p u res f have out: "store' = (case c of Some s2 \<Rightarrow> s2 | None \<Rightarrow> s1)"
    by (auto simp: LogEvent_def Let_def d_def inp_def split: option.splits)
  have 1: "store fk = None \<longrightarrow> store' fk = None"
  proof
    assume "store fk = None"
    with s1 have "s1 fk = None" by simp
    then have "s1 (createFlowStatusCacheKey (dTransactionID d) (dSubscriberURL d)) = None"
      by (simp add: fk_def)
    from setFlowStatus_absent [where rdb = s1 and t = "dTransactionID d" and u = "dSubscriberURL d",
        OF this] f
    have "c = Some s1" by simp
    with out \<open>s1 fk = None\<close> show "store' fk = None" by simp
  qed
  have 2: "store fk \<noteq> None \<and> \<not> existsErr (flow ce) \<and> \<not> setErr (flow ce) \<longrightarrow>
             store' fk = Some \<lparr>content = JSONText (AMap (fmap_of_list [(''status'', AString ''AVAILABLE'')])),
                                remaining = ExpiresIn (5 * 3600000000000)\<rparr>"
  proof
    assume h: "store fk \<noteq> None \<and> \<not> existsErr (flow ce) \<and> \<not> setErr (flow ce)"
    with s1 have "s1 (createFlowStatusCacheKey (dTransactionID d) (dSubscriberURL d)) \<noteq> None"
      by (simp add: fk_def)
    from setFlowStatus_present [where rdb = s1 and t = "dTransactionID d" and u = "dSubscriberURL d"
        and e = "flow ce" and ttl = "5 * 3600000000000" and st = "''AVAILABLE''",
        OF fkne [unfolded fk_def] this] h f
    obtain s2 where "c = Some s2" "s2 fk = Some \<lparr>content = JSONText (AMap (fmap_of_list [(''status'', AString ''AVAILABLE'')])),
                                remaining = ExpiresIn (5 * 3600000000000)\<rparr>"
      by (auto simp: fk_def)
    with out show "store' fk = Some \<lparr>content = JSONText (AMap (fmap_of_list [(''status'', AString ''AVAILABLE'')])),
                                remaining = ExpiresIn (5 * 3600000000000)\<rparr>" by simp
  qed
  from 1 2 show "let fk = createFlowStatusCacheKey (dTransactionID (pDerived q)) (dSubscriberURL (pDerived q))
       in (store fk = None \<longrightarrow> store' fk = None) \<and>
          (store fk \<noteq> None \<and> \<not> existsErr (flow ce) \<and> \<not> setErr (flow ce) \<longrightarrow>
             store' fk = Some \<lparr>content = JSONText (AMap (fmap_of_list [(''status'', AString ''AVAILABLE'')])),
                                remaining = ExpiresIn (5 * 3600000000000)\<rparr>)"
    unfolding Let_def fk_def d_def by blast
qed

text \<open>
  The theorem on an empty store, on a store with the flow-status key, and on a whole
  call of \<open>LogEvent\<close> for the seeded transaction.
\<close>

theorem setFlowStatusIfExists_effect_witness:
  "Map.empty (createFlowStatusCacheKey ''t1'' ''https://s'') = (None :: entry option) \<and>
   \<not> existsErr steady \<and> \<not> setErr steady \<and>
   setFlowStatusIfExists (Some Map.empty) steady ''t1'' ''https://s'' ''AVAILABLE'' 18000000000000 =
     (Some Map.empty, None) \<and>
   createFlowStatusCacheKey ''t1'' ''https://s'' \<noteq> [] \<and>
   withFlow (createFlowStatusCacheKey ''t1'' ''https://s'') =
     Some \<lparr>content = JSONText (AMap fmempty), remaining = NoExpiry\<rparr> \<and>
   (\<exists>rdb'. setFlowStatusIfExists (Some withFlow) steady ''t1'' ''https://s'' ''COMPLETED'' 3600000000000 =
            (Some rdb', None) \<and>
          rdb' flowKey = Some \<lparr>content = JSONText (AMap (fmap_of_list [(''status'', AString ''COMPLETED'')])),
                                remaining = ExpiresIn 3600000000000\<rparr>) \<and>
   \<not> SkipCacheUpdate defaults \<and>
   fst (snd (LogEvent defaults quietCall withFlow searchEvent)) = Inr () \<and>
   fst (LogEvent defaults quietCall withFlow searchEvent) flowKey =
     Some \<lparr>content = JSONText (AMap (fmap_of_list [(''status'', AString ''AVAILABLE'')])),
           remaining = ExpiresIn 18000000000000\<rparr>"
proof -
  let ?L = "LogEvent defaults quietCall withFlow searchEvent"
  have s: "\<not> existsErr steady" "\<not> setErr steady" by (simp_all add: steady_def)
  have e: "Map.empty (createFlowStatusCacheKey ''t1'' ''https://s'') = (None :: entry option)" by simp
  from setFlowStatusIfExists_effect [where rdb = Map.empty and t = "''t1''" and u = "''https://s''"
      and e = steady and st = "''AVAILABLE''" and ttl = 18000000000000] e s
  have 1: "setFlowStatusIfExists (Some Map.empty) steady ''t1'' ''https://s'' ''AVAILABLE'' 18000000000000 =
     (Some Map.empty, None)" by blast
  have k: "createFlowStatusCacheKey ''t1'' ''https://s'' \<noteq> []" by (simp add: flowKey_derived flowKey_def)
  have w: "withFlow (createFlowStatusCacheKey ''t1'' ''https://s'') =
     Some \<lparr>content = JSONText (AMap fmempty), remaining = NoExpiry\<rparr>"
    by (simp add: flowKey_derived withFlow_def)
  then have w': "withFlow (createFlowStatusCacheKey ''t1'' ''https://s'') \<noteq> None" by simp
  have pos: "(0::int) < 3600000000000" by simp
  from setFlowStatusIfExists_effect [where rdb = withFlow and t = "''t1''" and u = "''https://s''"
      and e = steady and st = "''COMPLETED''" and ttl = 3600000000000] k w' s pos
  have 2: "\<exists>rdb'. setFlowStatusIfExists (Some withFlow) steady ''t1'' ''https://s'' ''COMPLETED'' 3600000000000 =
            (Some rdb', None) \<and>
          rdb' flowKey = Some \<lparr>content = JSONText (AMap (fmap_of_list [(''status'', AString ''COMPLETED'')])),
                                remaining = ExpiresIn 3600000000000\<rparr>"
    unfolding flowKey_derived by blast
  have c: "\<not> SkipCacheUpdate defaults" by (simp add: defaults_def)
  have f: "withFlow flowKey \<noteq> None" "\<not> existsErr (flow quietCall)" "\<not> setErr (flow quietCall)"
    by (simp_all add: withFlow_def quietCall_def steady_def)
  from setFlowStatusIfExists_effect [where cfg = defaults and ce = quietCall and req = searchEvent
      and store = withFlow and store' = "fst ?L" and jobs = "snd (snd ?L)"
      and q = "projr (prepare defaults (wallClock quietCall) (randomID quietCall) searchEvent)"]
    c searchEvent_prepared searchEvent_logged f
  have 3: "fst ?L flowKey =
     Some \<lparr>content = JSONText (AMap (fmap_of_list [(''status'', AString ''AVAILABLE'')])),
           remaining = ExpiresIn 18000000000000\<rparr>"
    unfolding searchEvent_flowKey Let_def by simp
  from searchEvent_logged have "fst (snd ?L) = Inr ()" by (metis fst_conv snd_conv)
  with e s 1 k w 2 c 3 show ?thesis by blast
qed
section \<open>The fields a merge leaves alone\<close>



section \<open>Validation and defaults of an audit event\<close>



section \<open>The submission id of a form entry\<close>

text \<open>
  C9. When the form handler answers 200, the last entry of the stored \<open>apiList\<close> is a
  FORM entry. The submission id chosen is the field \<open>submissionId\<close> when that is a
  string that is not blank after trimming, and the field \<open>submission\_id\<close> otherwise
  (a field that is missing or no string counts as empty). The entry has the key
  \<open>submissionId\<close> exactly when the chosen value is not blank after trimming, and then
  holds the trimmed chosen value. For \<open>submissionId\<close> of two blanks and
  \<open>submission\_id\<close> of \<open>sub-snake\<close> the chosen value is \<open>sub-snake\<close>.
\<close>

theorem form_submission_id:
  "(htmlForm envs (Some rdb) \<lparr>Method = ''POST'', Body = Decoded (AMap formData)\<rparr> = (client', 200, msg) \<longrightarrow>
      (\<exists>store e. client' = Some store \<and>
         apiListIn (store (createTransactionKey (getString formData ''transaction_id'')
                             (getString formData ''subscriber_url''))) \<noteq> [] \<and>
         last (apiListIn (store (createTransactionKey (getString formData ''transaction_id'')
                                   (getString formData ''subscriber_url'')))) = AMap e \<and>
         fmlookup e ''entryType'' = Some (AString ''FORM'') \<and>
         fmlookup e ''submissionId'' =
           (let chosen = (if TrimSpace (getString formData ''submissionId'') \<noteq> []
                          then getString formData ''submissionId''
                          else getString formData ''submission_id'')
            in if TrimSpace chosen = [] then None else Some (AString (TrimSpace chosen))))) \<and>
   submissionIDOf (fmap_of_list [(''submissionId'', AString ''  ''),
                                 (''submission_id'', AString ''sub-snake'')]) = ''sub-snake''"
proof (intro conjI impI)
  assume a: "htmlForm envs (Some rdb) \<lparr>Method = ''POST'', Body = Decoded (AMap formData)\<rparr> = (client', 200, msg)"
  let ?err = "case fmlookup formData ''error'' of None \<Rightarrow> ANil | Some v \<Rightarrow> v"
  from htmlForm_ok [OF a] obtain tid url fid where
    f: "fmlookup formData ''transaction_id'' = Some (AString tid)"
       "fmlookup formData ''subscriber_url'' = Some (AString url)"
    and ap: "appendFormEntryAtomically envs (Some rdb) tid url fid (getString formData ''form_type'')
             (submissionIDOf formData) ?err = (client', None)"
    by blast
  from f have k: "getString formData ''transaction_id'' = tid" "getString formData ''subscriber_url'' = url"
    by (simp_all add: getString_def)
  from form_success_doc [OF ap] obtain store n where
    s: "client' = Some store"
       "documentIn (store (createTransactionKey tid url)) =
          formAppend fid (getString formData ''form_type'') (submissionIDOf formData) ?err (clock (envs n))
            (documentIn (readBy envs rdb (createTransactionKey tid url) n))"
    by blast
  let ?e = "formEntry fid (getString formData ''form_type'') (submissionIDOf formData) ?err (clock (envs n))"
  from s(2) have l: "apiListIn (store (createTransactionKey tid url)) =
      apiListIn (readBy envs rdb (createTransactionKey tid url) n) @ [AMap ?e]"
    by (simp add: apiListIn_def formAppend_apiList)
  have "fmlookup ?e ''submissionId'' =
           (let chosen = (if TrimSpace (getString formData ''submissionId'') \<noteq> []
                          then getString formData ''submissionId''
                          else getString formData ''submission_id'')
            in if TrimSpace chosen = [] then None else Some (AString (TrimSpace chosen)))"
    by (simp add: formEntry_fields submissionIDOf_choice Let_def)
  with s(1) l show "\<exists>store e. client' = Some store \<and>
         apiListIn (store (createTransactionKey (getString formData ''transaction_id'')
                             (getString formData ''subscriber_url''))) \<noteq> [] \<and>
         last (apiListIn (store (createTransactionKey (getString formData ''transaction_id'')
                                   (getString formData ''subscriber_url'')))) = AMap e \<and>
         fmlookup e ''entryType'' = Some (AString ''FORM'') \<and>
         fmlookup e ''submissionId'' =
           (let chosen = (if TrimSpace (getString formData ''submissionId'') \<noteq> []
                          then getString formData ''submissionId''
                          else getString formData ''submission_id'')
            in if TrimSpace chosen = [] then None else Some (AString (TrimSpace chosen)))"
    unfolding k by (intro exI [of _ store] exI [of _ ?e]) (simp add: formEntry_fields)
next
  show "submissionIDOf (fmap_of_list [(''submissionId'', AString ''  ''),
                                 (''submission_id'', AString ''sub-snake'')]) = ''sub-snake''"
    by code_simp
qed

text \<open>The theorem on a submission for the seeded document with both fields.\<close>

theorem form_submission_id_witness:
  "fst (snd (htmlForm calm (Some seeded) \<lparr>Method = ''POST'', Body = Decoded (AMap snakeForm)\<rparr>)) = 200 \<and>
   createTransactionKey (getString snakeForm ''transaction_id'') (getString snakeForm ''subscriber_url'')
     = seedKey \<and>
   (\<exists>store e. fst (htmlForm calm (Some seeded) \<lparr>Method = ''POST'', Body = Decoded (AMap snakeForm)\<rparr>)
                 = Some store \<and>
      last (apiListIn (store seedKey)) = AMap e \<and>
      fmlookup e ''submissionId'' = Some (AString ''sub-snake''))"
proof -
  let ?H = "htmlForm calm (Some seeded) \<lparr>Method = ''POST'', Body = Decoded (AMap snakeForm)\<rparr>"
  have c: "fst (snd ?H) = 200" by code_simp
  then have h: "?H = (fst ?H, 200, snd (snd ?H))" by (metis prod.collapse)
  have k: "createTransactionKey (getString snakeForm ''transaction_id'') (getString snakeForm ''subscriber_url'')
     = seedKey"
    unfolding seedKey_def by code_simp
  have v: "(let chosen = (if TrimSpace (getString snakeForm ''submissionId'') \<noteq> []
                          then getString snakeForm ''submissionId''
                          else getString snakeForm ''submission_id'')
            in if TrimSpace chosen = [] then None else Some (AString (TrimSpace chosen))) =
           Some (AString ''sub-snake'')"
    by code_simp
  from form_submission_id [where envs = calm and rdb = seeded and formData = snakeForm
      and client' = "fst ?H" and msg = "snd (snd ?H)"] h
  obtain store e where "fst ?H = Some store" "last (apiListIn (store seedKey)) = AMap e"
    "fmlookup e ''submissionId'' = Some (AString ''sub-snake'')"
    unfolding k v by blast
  with c k show ?thesis by blast
qed

section \<open>The bodies of an audit event\<close>

text \<open>
  C10. When the \<open>requestBody\<close> or the \<open>responseBody\<close> of the payload is omitted, null or
  no object, \<open>LogEvent\<close> returns an InvalidArgument error whose message is one of the
  three of the decoding step, so before any field is derived; the store is untouched
  and nothing is enqueued. The same holds of the payload \<open>null\<close>. An omitted or null
  \<open>additionalData\<close> gives the same call as an empty object.
\<close>

theorem LogEvent_requires_bodies:
  "((\<forall>m. requestBody ms \<noteq> Some (AMap m)) \<or> (\<forall>m. responseBody ms \<noteq> Some (AMap m)) \<longrightarrow>
      (\<exists>msg. LogEvent cfg ce rdb (BytesValue (Object ms)) = (rdb, Inl (Status InvalidArgument msg), []) \<and>
             msg \<in> {''invalid JSON'', ''requestBody must be a JSON object'',
                    ''responseBody must be a JSON object''})) \<and>
   LogEvent cfg ce rdb (BytesValue Null) =
     (rdb, Inl (Status InvalidArgument ''requestBody must be a JSON object''), []) \<and>
   (additionalData ms = None \<or> additionalData ms = Some ANil \<longrightarrow>
      LogEvent cfg ce rdb (BytesValue (Object ms)) =
        LogEvent cfg ce rdb (BytesValue (Object (ms\<lparr>additionalData := Some (AMap fmempty)\<rparr>))))"
proof (intro conjI impI)
  assume a: "(\<forall>m. requestBody ms \<noteq> Some (AMap m)) \<or> (\<forall>m. responseBody ms \<noteq> Some (AMap m))"
  have f: "unmarshalField v = Inr None \<or> unmarshalField v = Inl jsonError"
    if "\<forall>m. v \<noteq> Some (AMap m)" for v
    using that by (cases v rule: unmarshalField.cases) auto
  have g: "unmarshalField v = Inl jsonError \<or> (\<exists>x. unmarshalField v = Inr x)" for v
    by (cases v rule: unmarshalField.cases) auto
  have "\<exists>msg. prepare cfg (wallClock ce) (randomID ce) (BytesValue (Object ms)) = Inl (Status InvalidArgument msg) \<and>
             msg \<in> {''invalid JSON'', ''requestBody must be a JSON object'',
                    ''responseBody must be a JSON object''}"
    using a f [of "requestBody ms"] f [of "responseBody ms"]
      g [of "requestBody ms"] g [of "responseBody ms"] g [of "additionalData ms"]
    by (auto simp: prepare_def unmarshalPayload_def)
  then show "\<exists>msg. LogEvent cfg ce rdb (BytesValue (Object ms)) = (rdb, Inl (Status InvalidArgument msg), []) \<and>
             msg \<in> {''invalid JSON'', ''requestBody must be a JSON object'',
                    ''responseBody must be a JSON object''}"
    using LogEvent_rejected by blast
next
  show "LogEvent cfg ce rdb (BytesValue Null) =
     (rdb, Inl (Status InvalidArgument ''requestBody must be a JSON object''), [])"
    by (simp add: LogEvent_def prepare_def unmarshalPayload_def)
next
  assume a: "additionalData ms = None \<or> additionalData ms = Some ANil"
  have "prepare cfg (wallClock ce) (randomID ce) (BytesValue (Object ms)) =
        prepare cfg (wallClock ce) (randomID ce) (BytesValue (Object (ms\<lparr>additionalData := Some (AMap fmempty)\<rparr>)))"
    using a by (auto simp: prepare_def unmarshalPayload_def split: sum.splits)
  then show "LogEvent cfg ce rdb (BytesValue (Object ms)) =
        LogEvent cfg ce rdb (BytesValue (Object (ms\<lparr>additionalData := Some (AMap fmempty)\<rparr>)))"
    by (simp add: LogEvent_def)
qed

text \<open>
  The theorem on a payload without request body, on one whose response body is a text,
  and on one without additional data.
\<close>

theorem LogEvent_requires_bodies_witness:
  "requestBody noRequestBody = None \<and>
   LogEvent defaults quietCall seeded (BytesValue (Object noRequestBody)) =
     (seeded, Inl (Status InvalidArgument ''requestBody must be a JSON object''), []) \<and>
   responseBody textResponseBody = Some (AString ''ok'') \<and>
   LogEvent defaults quietCall seeded (BytesValue (Object textResponseBody)) =
     (seeded, Inl (Status InvalidArgument ''invalid JSON''), []) \<and>
   additionalData noAdditionalData = None \<and>
   LogEvent defaults quietCall seeded (BytesValue (Object noAdditionalData)) =
     (seeded, Inl (Status InvalidArgument ''transaction_id is required in additionalData''), [])"
proof -
  let ?A = "LogEvent defaults quietCall seeded (BytesValue (Object noRequestBody))"
  let ?B = "LogEvent defaults quietCall seeded (BytesValue (Object textResponseBody))"
  let ?C = "LogEvent defaults quietCall seeded (BytesValue (Object noAdditionalData))"
  have a: "requestBody noRequestBody = None" by (simp add: noRequestBody_def)
  then have "\<forall>m. requestBody noRequestBody \<noteq> Some (AMap m)" by simp
  with LogEvent_requires_bodies [where ms = noRequestBody and cfg = defaults and ce = quietCall
      and rdb = seeded]
  obtain m1 where m1: "?A = (seeded, Inl (Status InvalidArgument m1), [])" by blast
  have "fst (snd ?A) = Inl (Status InvalidArgument ''requestBody must be a JSON object'')"
    by code_simp
  with m1 have 1: "?A = (seeded, Inl (Status InvalidArgument ''requestBody must be a JSON object''), [])"
    by simp
  have b: "responseBody textResponseBody = Some (AString ''ok'')" by (simp add: textResponseBody_def)
  then have "\<forall>m. responseBody textResponseBody \<noteq> Some (AMap m)" by simp
  with LogEvent_requires_bodies [where ms = textResponseBody and cfg = defaults and ce = quietCall
      and rdb = seeded]
  obtain m2 where m2: "?B = (seeded, Inl (Status InvalidArgument m2), [])" by blast
  have "fst (snd ?B) = Inl (Status InvalidArgument ''invalid JSON'')"
    by code_simp
  with m2 have 2: "?B = (seeded, Inl (Status InvalidArgument ''invalid JSON''), [])"
    by simp
  have c: "additionalData noAdditionalData = None" by (simp add: noAdditionalData_def)
  with LogEvent_requires_bodies [where ms = noAdditionalData and cfg = defaults and ce = quietCall
      and rdb = seeded]
  have "?C = LogEvent defaults quietCall seeded
      (BytesValue (Object (noAdditionalData\<lparr>additionalData := Some (AMap fmempty)\<rparr>)))" by blast
  moreover have "prepare defaults (wallClock quietCall) (randomID quietCall)
      (BytesValue (Object (noAdditionalData\<lparr>additionalData := Some (AMap fmempty)\<rparr>))) =
      Inl (Status InvalidArgument ''transaction_id is required in additionalData'')"
    by code_simp
  ultimately have 3: "?C =
     (seeded, Inl (Status InvalidArgument ''transaction_id is required in additionalData''), [])"
    by (simp add: LogEvent_rejected)
  from a 1 b 2 c 3 show ?thesis by blast
qed

end
